theory Spec2Isabelle
  imports Complex_Main "HOL-Library.Multiset"
begin

section \<open>Host-language values: strings and numbers\<close>

text \<open>
  A string of the program is a sequence of code units; a \<^typ>\<open>char\<close> stands for a code
  unit below 256. Within that range the white space and line terminators that
  \<^verbatim>\<open>String.prototype.trim\<close> and \<^verbatim>\<open>parseFloat\<close> strip are TAB, LF, VT, FF, CR, SP and
  NBSP.
\<close>

definition isWhiteSpace :: "char \<Rightarrow> bool" where
  "isWhiteSpace c = (c \<in> set [CHR 0x09, CHR 0x0A, CHR 0x0B, CHR 0x0C, CHR 0x0D, CHR 0x20, CHR 0xA0])"

definition trim :: "string \<Rightarrow> string" where
  "trim s = rev (dropWhile isWhiteSpace (rev (dropWhile isWhiteSpace s)))"

text \<open>
  A Number of the program. \<open>Num q\<close> is the Number value for the mathematical value \<open>q\<close>
  (the host rounds \<open>q\<close> to binary64; the rounding is not part of the embedding, and the
  sign of zero is not represented: both zeros are falsy and print alike).
\<close>

datatype number = NaN | PosInfinity | NegInfinity | Num rat

definition falsy :: "number \<Rightarrow> bool" where
  "falsy n = (n = NaN \<or> n = Num 0)"

text \<open>\<^verbatim>\<open>a || b\<close> on numbers.\<close>

definition or_else :: "number \<Rightarrow> number \<Rightarrow> number" where
  "or_else a b = (if falsy a then b else a)"

definition negate :: "number \<Rightarrow> number" where
  "negate n = (case n of NaN \<Rightarrow> NaN | PosInfinity \<Rightarrow> NegInfinity
                 | NegInfinity \<Rightarrow> PosInfinity | Num q \<Rightarrow> Num (- q))"

subsection \<open>parseFloat\<close>

text \<open>
  \<^verbatim>\<open>parseFloat\<close> skips leading white space and reads the longest prefix that is a
  \<^verbatim>\<open>StrDecimalLiteral\<close>: an optional sign, then \<^verbatim>\<open>Infinity\<close>, or digits with an optional
  fraction and exponent, or a fraction that starts with the point. Whatever follows the
  prefix is ignored; with no such prefix the result is \<^verbatim>\<open>NaN\<close>.
\<close>

definition isDigit :: "char \<Rightarrow> bool" where
  "isDigit c = (c \<in> set ''0123456789'')"

definition digitValue :: "char \<Rightarrow> nat" where
  "digitValue c = of_char c - 48"

definition decimalValue :: "string \<Rightarrow> nat" where
  "decimalValue ds = foldl (\<lambda>n c. 10 * n + digitValue c) 0 ds"

text \<open>
  The \<^verbatim>\<open>ExponentPart\<close> a string starts with: its value and what follows it. A string
  that starts with none (an \<^verbatim>\<open>e\<close> with no digits after it is none) gives 0 and itself.
\<close>

definition exponentPart :: "string \<Rightarrow> int \<times> string" where
  "exponentPart s =
     (case s of
        [] \<Rightarrow> (0, s)
      | c # r \<Rightarrow>
          if c = CHR ''e'' \<or> c = CHR ''E'' then
            (let (sign, ds) =
                   (case r of
                      [] \<Rightarrow> (1, r)
                    | d # r' \<Rightarrow>
                        if d = CHR ''+'' then (1, r')
                        else if d = CHR ''-'' then (- 1, r')
                        else (1, r))
             in if takeWhile isDigit ds = [] then (0, s)
                else (sign * int (decimalValue (takeWhile isDigit ds)), dropWhile isDigit ds))
          else (0, s))"

definition scale10 :: "nat \<Rightarrow> int \<Rightarrow> rat" where
  "scale10 m e = (if 0 \<le> e then of_nat m * 10 ^ nat e else of_nat m / 10 ^ nat (- e))"

text \<open>
  The longest \<^verbatim>\<open>StrUnsignedDecimalLiteral\<close> a string starts with: its value and what
  follows it, or \<open>None\<close> when the string starts with none.
\<close>

definition strUnsignedDecimalLiteral :: "string \<Rightarrow> (number \<times> string) option" where
  "strUnsignedDecimalLiteral s =
     (if take 8 s = ''Infinity'' then Some (PosInfinity, drop 8 s)
      else
        let ip = takeWhile isDigit s; r = dropWhile isDigit s in
        (case r of
           [] \<Rightarrow> if ip = [] then None else Some (Num (of_nat (decimalValue ip)), [])
         | c # r2 \<Rightarrow>
             if c = CHR ''.'' then
               (let fp = takeWhile isDigit r2;
                    (e, r3) = exponentPart (dropWhile isDigit r2)
                in if ip = [] \<and> fp = [] then None
                   else Some (Num (scale10 (decimalValue (ip @ fp)) (e - int (length fp))), r3))
             else if ip = [] then None
             else (let (e, r3) = exponentPart r in Some (Num (scale10 (decimalValue ip) e), r3))))"

definition strDecimalLiteral :: "string \<Rightarrow> (number \<times> string) option" where
  "strDecimalLiteral s =
     (case s of
        [] \<Rightarrow> None
      | c # r \<Rightarrow>
          if c = CHR ''-'' then map_option (\<lambda>(v, rest). (negate v, rest)) (strUnsignedDecimalLiteral r)
          else if c = CHR ''+'' then strUnsignedDecimalLiteral r
          else strUnsignedDecimalLiteral s)"

definition parseFloat :: "string \<Rightarrow> number" where
  "parseFloat s =
     (case strDecimalLiteral (dropWhile isWhiteSpace s) of
        None \<Rightarrow> NaN
      | Some (v, _) \<Rightarrow> v)"

section \<open>Row extraction (the callback of \<^verbatim>\<open>page.evaluate\<close> in scrapeEventResults)\<close>

text \<open>A table cell as the callback sees it: its \<^verbatim>\<open>textContent\<close>, a string or null.\<close>

datatype element = Element (textContent: "string option")

text \<open>\<^verbatim>\<open>cells[i]\<close>: reading an array past its end gives \<^verbatim>\<open>undefined\<close>.\<close>

definition at_index :: "'a list \<Rightarrow> nat \<Rightarrow> 'a option" where
  "at_index xs i = (if i < length xs then Some (xs ! i) else None)"

text \<open>
  \<^verbatim>\<open>cell?.textContent\<close>: undefined for an absent cell, else the cell's text. The
  conditional then tests it for truthiness: null, undefined and the empty string are
  falsy.
\<close>

definition truthyText :: "element option \<Rightarrow> string option" where
  "truthyText cell =
     (case cell of
        None \<Rightarrow> None
      | Some el \<Rightarrow> (case textContent el of None \<Rightarrow> None | Some t \<Rightarrow> if t = [] then None else Some t))"

definition getText :: "element option \<Rightarrow> string" where
  "getText cell = (case truthyText cell of Some t \<Rightarrow> trim t | None \<Rightarrow> [])"

definition getNumber :: "element option \<Rightarrow> number" where
  "getNumber cell =
     (let text_0 = (case truthyText cell of Some t \<Rightarrow> trim t | None \<Rightarrow> ''0'')
      in or_else (parseFloat text_0) (Num 0))"

record CompetitionResult =
  lifter :: string
  bodyWeight :: number
  snatch1 :: number
  snatch2 :: number
  snatch3 :: number
  snatch :: number
  cj1 :: number
  cj2 :: number
  cj3 :: number
  cj :: number
  total :: number

definition extractRow :: "element list \<Rightarrow> CompetitionResult" where
  "extractRow cells =
     \<lparr> lifter = getText (at_index cells 3),
       bodyWeight = getNumber (at_index cells 4),
       snatch1 = getNumber (at_index cells 8),
       snatch2 = getNumber (at_index cells 9),
       snatch3 = getNumber (at_index cells 10),
       snatch = getNumber (at_index cells 11),
       cj1 = getNumber (at_index cells 13),
       cj2 = getNumber (at_index cells 14),
       cj3 = getNumber (at_index cells 15),
       cj = getNumber (at_index cells 12),
       total = getNumber (at_index cells 13) \<rparr>"

section \<open>Records of the program\<close>

record EventData =
  idE :: int
  name :: string
  date :: string
  results :: "CompetitionResult list"

section \<open>The environment: browser, file system, clock and locale\<close>

text \<open>
  Everything outside the program is a parameter: a world of type \<open>'w\<close> and the operations
  the program calls on it. Each operation returns normally or throws, and moves the
  world on either way. Nothing is assumed about them, so a theorem about the program
  holds for every browser, site and file system.
\<close>

datatype exn = TimeoutError | Error string

record 'w env =
  launch :: "'w \<Rightarrow> (exn + unit) \<times> 'w"
  newContext :: "'w \<Rightarrow> (exn + unit) \<times> 'w"
  newPage :: "'w \<Rightarrow> (exn + unit) \<times> 'w"
  closeContext :: "'w \<Rightarrow> (exn + unit) \<times> 'w"
  closeBrowser :: "'w \<Rightarrow> (exn + unit) \<times> 'w"
  goto :: "string \<Rightarrow> 'w \<Rightarrow> (exn + unit) \<times> 'w"
  waitForSelector :: "string \<Rightarrow> nat \<Rightarrow> 'w \<Rightarrow> (exn + unit) \<times> 'w"
  raceSelectors :: "string \<Rightarrow> string \<Rightarrow> nat \<Rightarrow> 'w \<Rightarrow> (exn + unit) \<times> 'w"
  evalTextContent :: "string \<Rightarrow> 'w \<Rightarrow> (exn + string option) \<times> 'w"
  evaluateRows :: "'w \<Rightarrow> (exn + element list list) \<times> 'w"
  queryNextButton :: "'w \<Rightarrow> (exn + bool) \<times> 'w"
  click :: "'w \<Rightarrow> (exn + unit) \<times> 'w"
  waitForTimeout :: "nat \<Rightarrow> 'w \<Rightarrow> (exn + unit) \<times> 'w"
  writeFileSync :: "string \<Rightarrow> string \<Rightarrow> 'w \<Rightarrow> (exn + unit) \<times> 'w"
  toISOString :: "'w \<Rightarrow> string"
  localeCompare :: "string \<Rightarrow> string \<Rightarrow> int"
  numberToString :: "number \<Rightarrow> string"

text \<open>
  \<^item> \<open>waitForSelector sel ms\<close>: \<^verbatim>\<open>page.waitForSelector(sel, {timeout: ms})\<close>, which resolves
    with an element (truthy) or rejects;
  \<^item> \<open>raceSelectors a b ms\<close>: \<^verbatim>\<open>Promise.race\<close> of two such waits, settled as the first of
    them settles;
  \<^item> \<open>evalTextContent sel\<close>: \<^verbatim>\<open>page.$eval(sel, el => el.textContent ...)\<close> up to the read of
    \<^verbatim>\<open>textContent\<close>; it rejects when nothing matches \<open>sel\<close>;
  \<^item> \<open>evaluateRows\<close>: the rows \<^verbatim>\<open>table tbody tr\<close> of the document, each as its \<^verbatim>\<open>td\<close> cells;
  \<^item> \<open>queryNextButton\<close>: whether \<^verbatim>\<open>page.$\<close> finds a next-page button that is not disabled;
  \<^item> \<open>toISOString\<close>: \<^verbatim>\<open>new Date().toISOString()\<close>;
  \<^item> \<open>localeCompare\<close>, \<open>numberToString\<close>: the host's collation and its printing of Numbers.
\<close>

text \<open>What the program does to its environment, in order.\<close>

datatype action =
    Launch | NewContext | NewPage | CloseContext | CloseBrowser
  | Goto string
  | WaitForSelector string nat
  | RaceSelectors string string nat
  | EvalTextContent string
  | EvaluateRows
  | QueryNextButton
  | Click
  | WaitForTimeout nat
  | WriteFile string string

text \<open>
  The state of a run: the world, the actions so far, and the accumulator \<^verbatim>\<open>allEvents\<close>
  of scrapeWeightliftingData (an array the program pushes to, so an exception does not
  undo a push).
\<close>

record 'w state =
  world :: 'w
  trace :: "action list"
  allEvents :: "EventData list"

text \<open>
  A computation returns a value or throws, in a new state; \<open>None\<close> is a computation that
  never returns.
\<close>

type_synonym ('a, 'w) io = "'w state \<Rightarrow> ((exn + 'a) \<times> 'w state) option"

definition io_return :: "'a \<Rightarrow> ('a, 'w) io" where
  "io_return x s = Some (Inr x, s)"

definition io_bind :: "('a, 'w) io \<Rightarrow> ('a \<Rightarrow> ('b, 'w) io) \<Rightarrow> ('b, 'w) io" where
  "io_bind m f s =
     (case m s of
        None \<Rightarrow> None
      | Some (Inl e, s') \<Rightarrow> Some (Inl e, s')
      | Some (Inr x, s') \<Rightarrow> f x s')"

text \<open>\<^verbatim>\<open>try { m } catch (e) { h e }\<close>, and \<^verbatim>\<open>m.catch(h)\<close> on a promise.\<close>

definition io_catch :: "('a, 'w) io \<Rightarrow> (exn \<Rightarrow> ('a, 'w) io) \<Rightarrow> ('a, 'w) io" where
  "io_catch m h s =
     (case m s of
        None \<Rightarrow> None
      | Some (Inl e, s') \<Rightarrow> h e s'
      | Some (Inr x, s') \<Rightarrow> Some (Inr x, s'))"

text \<open>\<^verbatim>\<open>try { m } finally { fin }\<close>: an exception of \<open>fin\<close> replaces the outcome of \<open>m\<close>.\<close>

definition io_finally :: "('a, 'w) io \<Rightarrow> (unit, 'w) io \<Rightarrow> ('a, 'w) io" where
  "io_finally m fin s =
     (case m s of
        None \<Rightarrow> None
      | Some (r, s') \<Rightarrow>
          (case fin s' of
             None \<Rightarrow> None
           | Some (Inl e, s'') \<Rightarrow> Some (Inl e, s'')
           | Some (Inr _, s'') \<Rightarrow> Some (r, s'')))"

text \<open>A call of an operation of the environment: it is recorded and moves the world.\<close>

definition perform :: "action \<Rightarrow> ('w \<Rightarrow> (exn + 'a) \<times> 'w) \<Rightarrow> ('a, 'w) io" where
  "perform a op s =
     (case op (world s) of (r, w') \<Rightarrow> Some (r, s\<lparr>world := w', trace := trace s @ [a]\<rparr>))"

section \<open>scrapeEventResults: the results paginator\<close>

definition rowSelector :: string where
  "rowSelector = ''table tbody tr''"

text \<open>
  One pass through the body of \<^verbatim>\<open>while (hasNextPage)\<close>: the new value of \<^verbatim>\<open>allResults\<close> and
  of \<^verbatim>\<open>hasNextPage\<close>.
\<close>

definition pageStep :: "'w env \<Rightarrow> CompetitionResult list \<Rightarrow> (CompetitionResult list \<times> bool, 'w) io" where
  "pageStep E allResults =
     io_bind (perform (WaitForSelector rowSelector 30000) (waitForSelector E rowSelector 30000)) (\<lambda>_.
     io_bind (perform EvaluateRows (evaluateRows E)) (\<lambda>rows.
     let pageResults = map extractRow rows;
         allResults' = allResults @ pageResults in
     io_bind (perform QueryNextButton (queryNextButton E)) (\<lambda>nextButton.
     if nextButton then
       io_bind (perform Click (click E)) (\<lambda>_.
       io_bind (perform (WaitForTimeout 1000) (waitForTimeout E 1000)) (\<lambda>_.
       io_bind (perform (WaitForSelector rowSelector 30000) (waitForSelector E rowSelector 30000)) (\<lambda>_.
       io_return (allResults', True))))
     else io_return (allResults', False))))"

partial_function (option) whileHasNextPage ::
  "'w env \<Rightarrow> CompetitionResult list \<Rightarrow> 'w state \<Rightarrow> ((exn + CompetitionResult list) \<times> 'w state) option"
where
  "whileHasNextPage E allResults s =
     (case pageStep E allResults s of
        None \<Rightarrow> None
      | Some (Inl e, s') \<Rightarrow> Some (Inl e, s')
      | Some (Inr (allResults', hasNextPage), s') \<Rightarrow>
          if hasNextPage then whileHasNextPage E allResults' s' else Some (Inr allResults', s'))"

definition scrapeEventResults :: "'w env \<Rightarrow> (CompetitionResult list, 'w) io" where
  "scrapeEventResults E = whileHasNextPage E []"

section \<open>saveData: the persistence writer\<close>

text \<open>
  \<^verbatim>\<open>Array.prototype.sort\<close> with a comparison function: the host sorts stably, an element
  \<open>x\<close> before \<open>y\<close> when \<open>cmp x y < 0\<close> and in their old order when \<open>cmp x y = 0\<close>. For a
  consistent comparison function that fixes the outcome, which stable insertion computes.
\<close>

fun insertBy :: "('a \<Rightarrow> 'a \<Rightarrow> int) \<Rightarrow> 'a \<Rightarrow> 'a list \<Rightarrow> 'a list" where
  "insertBy cmp x [] = [x]"
| "insertBy cmp x (y # ys) = (if cmp x y \<le> 0 then x # y # ys else y # insertBy cmp x ys)"

definition sortBy :: "('a \<Rightarrow> 'a \<Rightarrow> int) \<Rightarrow> 'a list \<Rightarrow> 'a list" where
  "sortBy cmp xs = foldr (insertBy cmp) xs []"

text \<open>\<^verbatim>\<open>Array.prototype.join\<close> on strings.\<close>

fun join :: "string \<Rightarrow> string list \<Rightarrow> string" where
  "join sep [] = []"
| "join sep [x] = x"
| "join sep (x # y # ys) = x @ sep @ join sep (y # ys)"

definition newline :: string where
  "newline = [CHR 0x0A]"

definition quote :: string where
  "quote = [CHR 0x22]"

text \<open>\<^verbatim>\<open>data.flatMap(event => event.results).sort((a, b) => a.lifter.localeCompare(b.lifter))\<close>\<close>

definition sortedResults :: "'w env \<Rightarrow> EventData list \<Rightarrow> CompetitionResult list" where
  "sortedResults E data =
     sortBy (\<lambda>a b. localeCompare E (lifter a) (lifter b)) (concat (map results data))"

definition formatResult :: "'w env \<Rightarrow> CompetitionResult \<Rightarrow> string" where
  "formatResult E r =
     ''  { lifter: '' @ quote @ lifter r @ quote @ '', bodyWeight: '' @ numberToString E (bodyWeight r) @ '', '' @
     ''snatch1: '' @ numberToString E (snatch1 r) @ '', snatch2: '' @ numberToString E (snatch2 r) @
     '', snatch3: '' @ numberToString E (snatch3 r) @ '', snatch: '' @ numberToString E (snatch r) @ '', '' @
     ''cj1: '' @ numberToString E (cj1 r) @ '', cj2: '' @ numberToString E (cj2 r) @
     '', cj3: '' @ numberToString E (cj3 r) @ '', cj: '' @ numberToString E (cj r) @
     '', total: '' @ numberToString E (total r) @ '' }''"

definition formattedResults :: "'w env \<Rightarrow> CompetitionResult list \<Rightarrow> string" where
  "formattedResults E rs = join ('','' @ newline) (map (formatResult E) rs)"

definition tsContent :: "string \<Rightarrow> string \<Rightarrow> string" where
  "tsContent stamp formatted =
     concat
       [''// Generated by weightlifting scraper'', newline,
        ''// Last updated: '', stamp, newline,
        newline,
        ''export interface LiftResult {'', newline,
        ''    lifter: string;'', newline,
        ''    bodyWeight: number;'', newline,
        ''    snatch1: number;'', newline,
        ''    snatch2: number;'', newline,
        ''    snatch3: number;'', newline,
        ''    snatch: number;'', newline,
        ''    cj1: number;'', newline,
        ''    cj2: number;'', newline,
        ''    cj3: number;'', newline,
        ''    cj: number;'', newline,
        ''    total: number;'', newline,
        ''}'', newline,
        newline,
        ''export const liftingResults: LiftResult[] = ['', newline,
        formatted, newline,
        ''];'', newline]"

definition outputFile :: string where
  "outputFile = ''2023_weightlifting_data.ts''"

text \<open>The text saveData writes for \<open>data\<close> when the clock reads \<open>stamp\<close>.\<close>

definition fileContent :: "'w env \<Rightarrow> string \<Rightarrow> EventData list \<Rightarrow> string" where
  "fileContent E stamp data = tsContent stamp (formattedResults E (sortedResults E data))"

definition saveData :: "'w env \<Rightarrow> EventData list \<Rightarrow> (unit, 'w) io" where
  "saveData E data s =
     perform (WriteFile outputFile (fileContent E (toISOString E (world s)) data))
       (writeFileSync E outputFile (fileContent E (toISOString E (world s)) data)) s"

section \<open>scrapeWeightliftingData: the event crawler\<close>

text \<open>A template literal prints an integer Number of this size in decimal.\<close>

fun natToString :: "nat \<Rightarrow> string" where
  "natToString n =
     (if n < 10 then [''0123456789'' ! n]
      else natToString (n div 10) @ [''0123456789'' ! (n mod 10)])"

definition intToString :: "int \<Rightarrow> string" where
  "intToString i = (if i < 0 then ''-'' @ natToString (nat (- i)) else natToString (nat i))"

definition START_ID :: int where
  "START_ID = 6178"

definition END_ID :: int where
  "END_ID = 5652"

definition eventUrl :: "int \<Rightarrow> string" where
  "eventUrl eventId =
     ''https://usaweightlifting.sport80.com/public/rankings/results/'' @ intToString eventId"

definition errorSelector :: string where
  "errorSelector = ''.error-message''"

definition nameSelector :: string where
  "nameSelector = ''h1, .event-title, .page-title''"

definition dateSelector :: string where
  "dateSelector = ''time, .event-date, .date''"

text \<open>\<^verbatim>\<open>el.textContent?.trim() || ''\<close>\<close>

definition trimmedOrEmpty :: "string option \<Rightarrow> string" where
  "trimmedOrEmpty t = (case t of None \<Rightarrow> [] | Some x \<Rightarrow> if trim x = [] then [] else trim x)"

text \<open>\<^verbatim>\<open>new Date().toISOString().split('T')[0]\<close>\<close>

definition today :: "'w env \<Rightarrow> (string, 'w) io" where
  "today E s = io_return (takeWhile (\<lambda>c. c \<noteq> CHR ''T'') (toISOString E (world s))) s"

definition extractName :: "'w env \<Rightarrow> int \<Rightarrow> (string, 'w) io" where
  "extractName E eventId =
     io_catch
       (io_bind (perform (EvalTextContent nameSelector) (evalTextContent E nameSelector))
          (\<lambda>t. io_return (trimmedOrEmpty t)))
       (\<lambda>_. io_return (''Event '' @ intToString eventId))"

definition extractDate :: "'w env \<Rightarrow> (string, 'w) io" where
  "extractDate E =
     io_catch
       (io_bind (perform (EvalTextContent dateSelector) (evalTextContent E dateSelector))
          (\<lambda>t. io_return (trimmedOrEmpty t)))
       (\<lambda>_. today E)"

text \<open>\<^verbatim>\<open>allEvents.push(ev)\<close>\<close>

definition pushEvent :: "EventData \<Rightarrow> (unit, 'w) io" where
  "pushEvent ev s = Some (Inr (), s\<lparr>allEvents := allEvents s @ [ev]\<rparr>)"

text \<open>\<^verbatim>\<open>if (results.length > 0) { allEvents.push({...}); saveData(allEvents); }\<close>\<close>

definition recordEvent :: "'w env \<Rightarrow> int \<Rightarrow> string \<Rightarrow> string \<Rightarrow> CompetitionResult list \<Rightarrow> (unit, 'w) io" where
  "recordEvent E eventId eventName eventDate rs =
     (if length rs > 0 then
        io_bind
          (pushEvent \<lparr> idE = eventId, name = eventName, date = eventDate, results = rs \<rparr>)
          (\<lambda>_ s. saveData E (allEvents s) s)
      else io_return ())"

text \<open>
  The body of the inner \<^verbatim>\<open>try\<close>. A \<^verbatim>\<open>continue\<close> inside it leaves the block, and with it
  the iteration, at once: the block has no \<^verbatim>\<open>finally\<close>.
\<close>

definition tryBlock :: "'w env \<Rightarrow> int \<Rightarrow> (unit, 'w) io" where
  "tryBlock E eventId =
     io_bind (perform (Goto (eventUrl eventId)) (goto E (eventUrl eventId))) (\<lambda>_.
     io_bind
       (io_catch
          (io_bind (perform (RaceSelectors rowSelector errorSelector 5000)
                      (raceSelectors E rowSelector errorSelector 5000))
             (\<lambda>_. io_return True))
          (\<lambda>_. io_return False)) (\<lambda>hasContent.
     if \<not> hasContent then io_return ()
     else
       io_bind
         (io_catch
            (io_bind (perform (WaitForSelector rowSelector 5000) (waitForSelector E rowSelector 5000))
               (\<lambda>_. io_return True))
            (\<lambda>_. io_return False)) (\<lambda>hasTable.
       if \<not> hasTable then io_return ()
       else
         io_bind (extractName E eventId) (\<lambda>eventName.
         io_bind (extractDate E) (\<lambda>eventDate.
         io_bind (scrapeEventResults E) (\<lambda>results.
         io_bind (recordEvent E eventId eventName eventDate results) (\<lambda>_.
         perform (WaitForTimeout 2000) (waitForTimeout E 2000))))))))"

text \<open>One iteration of the \<^verbatim>\<open>for\<close> loop: the inner \<^verbatim>\<open>try\<close> with its \<^verbatim>\<open>catch\<close>.\<close>

definition iteration :: "'w env \<Rightarrow> int \<Rightarrow> (unit, 'w) io" where
  "iteration E eventId =
     io_catch (tryBlock E eventId) (\<lambda>error. perform (WaitForTimeout 2000) (waitForTimeout E 2000))"

text \<open>\<^verbatim>\<open>for (let eventId = ...; eventId >= endId; eventId--)\<close>, from \<open>eventId\<close> on.\<close>

function forEventId :: "'w env \<Rightarrow> int \<Rightarrow> int \<Rightarrow> 'w state \<Rightarrow> ((exn + unit) \<times> 'w state) option" where
  "forEventId E endId eventId s =
     (if eventId \<ge> endId then
        (case iteration E eventId s of
           None \<Rightarrow> None
         | Some (Inl e, s') \<Rightarrow> Some (Inl e, s')
         | Some (Inr _, s') \<Rightarrow> forEventId E endId (eventId - 1) s')
      else Some (Inr (), s))"
  by pat_completeness auto
termination
  by (relation "measure (\<lambda>(E, endId, eventId, s). nat (eventId - endId + 1))") auto

definition scrapeWeightliftingData :: "'w env \<Rightarrow> (unit, 'w) io" where
  "scrapeWeightliftingData E =
     io_bind (perform Launch (launch E)) (\<lambda>_.
     io_bind (perform NewContext (newContext E)) (\<lambda>_.
     io_bind (perform NewPage (newPage E)) (\<lambda>_.
     io_bind (\<lambda>s. Some (Inr (), s\<lparr>allEvents := []\<rparr>)) (\<lambda>_.
     io_finally
       (io_catch (forEventId E END_ID START_ID) (\<lambda>error s. Some (Inl error, s)))
       (io_bind (perform CloseContext (closeContext E)) (\<lambda>_.
        perform CloseBrowser (closeBrowser E)))))))"

section \<open>saveData on a store\<close>

text \<open>
  Arrays and objects of the program are references into a store, and
  \<^verbatim>\<open>Array.prototype.sort\<close> sorts the array it is called on in place. The store is a list of
  cells, a reference is an index into it, and a new object takes the next index.
\<close>

datatype cell =
    ResultObj CompetitionResult
  | EventObj int string string nat
  | ResultArray "nat list"
  | EventArray "nat list"
  | StringArray "string list"

type_synonym store = "cell list"

definition alloc :: "store \<Rightarrow> cell \<Rightarrow> nat \<times> store" where
  "alloc h c = (length h, h @ [c])"

definition getResult :: "store \<Rightarrow> nat \<Rightarrow> CompetitionResult option" where
  "getResult h r =
     (if r < length h then (case h ! r of ResultObj x \<Rightarrow> Some x | _ \<Rightarrow> None) else None)"

definition getResultArray :: "store \<Rightarrow> nat \<Rightarrow> nat list option" where
  "getResultArray h r =
     (if r < length h then (case h ! r of ResultArray xs \<Rightarrow> Some xs | _ \<Rightarrow> None) else None)"

definition getEventArray :: "store \<Rightarrow> nat \<Rightarrow> nat list option" where
  "getEventArray h r =
     (if r < length h then (case h ! r of EventArray xs \<Rightarrow> Some xs | _ \<Rightarrow> None) else None)"

text \<open>\<^verbatim>\<open>event.results\<close>: the elements of the results array of the event at \<open>r\<close>.\<close>

definition eventResults :: "store \<Rightarrow> nat \<Rightarrow> nat list option" where
  "eventResults h r =
     (if r < length h then (case h ! r of EventObj _ _ _ a \<Rightarrow> getResultArray h a | _ \<Rightarrow> None)
      else None)"

text \<open>
  The events the array at \<open>r\<close> holds, read out of the store as values; \<open>None\<close> when the
  store does not hold an array of events there.
\<close>

definition readResults :: "store \<Rightarrow> nat list \<Rightarrow> CompetitionResult list option" where
  "readResults h refs = those (map (getResult h) refs)"

definition readEvent :: "store \<Rightarrow> nat \<Rightarrow> EventData option" where
  "readEvent h r =
     (if r < length h then
        (case h ! r of
           EventObj i n d a \<Rightarrow>
             (case getResultArray h a of
                None \<Rightarrow> None
              | Some refs \<Rightarrow>
                  map_option (\<lambda>rs. \<lparr> idE = i, name = n, date = d, results = rs \<rparr>) (readResults h refs))
         | _ \<Rightarrow> None)
      else None)"

definition readData :: "store \<Rightarrow> nat \<Rightarrow> EventData list option" where
  "readData h r =
     (case getEventArray h r of None \<Rightarrow> None | Some evs \<Rightarrow> those (map (readEvent h) evs))"

text \<open>\<^verbatim>\<open>data.flatMap(event => event.results)\<close>: a new array of the references.\<close>

definition flatMapResults :: "store \<Rightarrow> nat \<Rightarrow> (nat \<times> store) option" where
  "flatMapResults h dataRef =
     (case getEventArray h dataRef of
        None \<Rightarrow> None
      | Some evs \<Rightarrow>
          (case those (map (eventResults h) evs) of
             None \<Rightarrow> None
           | Some xss \<Rightarrow> Some (alloc h (ResultArray (concat xss)))))"

text \<open>
  \<^verbatim>\<open>.sort((a, b) => a.lifter.localeCompare(b.lifter))\<close> on the array at \<open>r\<close>: the array is
  overwritten with its sorted elements, and the call returns the same reference.
\<close>

definition sortInPlace :: "'w env \<Rightarrow> store \<Rightarrow> nat \<Rightarrow> store option" where
  "sortInPlace E h r =
     (case getResultArray h r of
        None \<Rightarrow> None
      | Some refs \<Rightarrow>
          (case readResults h refs of
             None \<Rightarrow> None
           | Some rs \<Rightarrow>
               Some (h[r := ResultArray
                      (map fst (sortBy (\<lambda>a b. localeCompare E (lifter (snd a)) (lifter (snd b)))
                                  (zip refs rs)))])))"

text \<open>\<^verbatim>\<open>allResults.map(result => `...`)\<close>: a new array of strings.\<close>

definition mapFormat :: "'w env \<Rightarrow> store \<Rightarrow> nat \<Rightarrow> (nat \<times> store) option" where
  "mapFormat E h r =
     (case getResultArray h r of
        None \<Rightarrow> None
      | Some refs \<Rightarrow>
          (case readResults h refs of
             None \<Rightarrow> None
           | Some rs \<Rightarrow> Some (alloc h (StringArray (map (formatResult E) rs)))))"

text \<open>
  saveData on the store: the store it leaves and the text it writes, for the array of
  events at \<open>dataRef\<close>.
\<close>

definition saveDataStore :: "'w env \<Rightarrow> string \<Rightarrow> store \<Rightarrow> nat \<Rightarrow> (store \<times> string) option" where
  "saveDataStore E stamp h dataRef =
     (case flatMapResults h dataRef of
        None \<Rightarrow> None
      | Some (allResults, h1) \<Rightarrow>
          (case sortInPlace E h1 allResults of
             None \<Rightarrow> None
           | Some h2 \<Rightarrow>
               (case mapFormat E h2 allResults of
                  None \<Rightarrow> None
                | Some (formatted, h3) \<Rightarrow>
                    (case h3 ! formatted of
                       StringArray strs \<Rightarrow> Some (h3, tsContent stamp (join ('','' @ newline) strs))
                     | _ \<Rightarrow> None))))"

section \<open>Notions the properties are stated with\<close>



text \<open>
  A comparison function is consistent when ``not after'' is a total preorder: of two
  elements one is not after the other, and the relation is transitive.
\<close>

definition consistent :: "('a \<Rightarrow> 'a \<Rightarrow> int) \<Rightarrow> bool" where
  "consistent cmp =
     ((\<forall>a b. cmp a b \<le> 0 \<or> cmp b a \<le> 0) \<and>
      (\<forall>a b c. cmp a b \<le> 0 \<and> cmp b c \<le> 0 \<longrightarrow> cmp a c \<le> 0))"

text \<open>
  The site shows the pages \<open>ps\<close>, in this order, to a paginator that starts in world \<open>w\<close>
  and leaves it in \<open>w'\<close>: every wait resolves, every page but the last has an enabled
  next-page button, the last has none, and each click goes through.
\<close>

inductive pagesFrom :: "'w env \<Rightarrow> 'w \<Rightarrow> element list list list \<Rightarrow> 'w \<Rightarrow> bool" for E :: "'w env" where
  lastPage:
    "waitForSelector E rowSelector 30000 w = (Inr (), w1) \<Longrightarrow>
     evaluateRows E w1 = (Inr rows, w2) \<Longrightarrow>
     queryNextButton E w2 = (Inr False, w3) \<Longrightarrow>
     pagesFrom E w [rows] w3"
| nextPage:
    "waitForSelector E rowSelector 30000 w = (Inr (), w1) \<Longrightarrow>
     evaluateRows E w1 = (Inr rows, w2) \<Longrightarrow>
     queryNextButton E w2 = (Inr True, w3) \<Longrightarrow>
     click E w3 = (Inr (), w4) \<Longrightarrow>
     waitForTimeout E 1000 w4 = (Inr (), w5) \<Longrightarrow>
     waitForSelector E rowSelector 30000 w5 = (Inr (), w6) \<Longrightarrow>
     pagesFrom E w6 ps w' \<Longrightarrow>
     pagesFrom E w (rows # ps) w'"

text \<open>The actions of the paginator on a site that shows \<open>n + 1\<close> pages.\<close>

fun paginatorTrace :: "nat \<Rightarrow> action list" where
  "paginatorTrace 0 = [WaitForSelector rowSelector 30000, EvaluateRows, QueryNextButton]"
| "paginatorTrace (Suc n) =
     [WaitForSelector rowSelector 30000, EvaluateRows, QueryNextButton,
      Click, WaitForTimeout 1000, WaitForSelector rowSelector 30000] @ paginatorTrace n"

text \<open>
  The part of a rendered entry after the closing quote of its lifter field, and the text
  between the first two double quotes of an entry.
\<close>

definition afterLifter :: "'w env \<Rightarrow> CompetitionResult \<Rightarrow> string" where
  "afterLifter E r =
     '', bodyWeight: '' @ numberToString E (bodyWeight r) @ '', '' @
     ''snatch1: '' @ numberToString E (snatch1 r) @ '', snatch2: '' @ numberToString E (snatch2 r) @
     '', snatch3: '' @ numberToString E (snatch3 r) @ '', snatch: '' @ numberToString E (snatch r) @ '', '' @
     ''cj1: '' @ numberToString E (cj1 r) @ '', cj2: '' @ numberToString E (cj2 r) @
     '', cj3: '' @ numberToString E (cj3 r) @ '', cj: '' @ numberToString E (cj r) @
     '', total: '' @ numberToString E (total r) @ '' }''"

definition quotedField :: "string \<Rightarrow> string" where
  "quotedField entry =
     takeWhile (\<lambda>c. c \<noteq> CHR 0x22) (drop 1 (dropWhile (\<lambda>c. c \<noteq> CHR 0x22) entry))"

text \<open>One record whose lifter name holds the end of the entry of \<open>a\<close> and the start of that of \<open>b\<close>.\<close>

definition spliced :: "'w env \<Rightarrow> CompetitionResult \<Rightarrow> CompetitionResult \<Rightarrow> CompetitionResult" where
  "spliced E a b =
     b\<lparr> lifter := lifter a @ quote @ afterLifter E a @ '','' @ newline @ ''  { lifter: '' @ quote @ lifter b \<rparr>"

text \<open>
  Every outcome of a computation, a return or a throw, relates the state before to the
  state after by \<open>R\<close>.
\<close>

definition preserves :: "('w state \<Rightarrow> 'w state \<Rightarrow> bool) \<Rightarrow> ('a, 'w) io \<Rightarrow> bool" where
  "preserves R m = (\<forall>s r s'. m s = Some (r, s') \<longrightarrow> R s s')"

definition isWriteFile :: "action \<Rightarrow> bool" where
  "isWriteFile a = (case a of WriteFile _ _ \<Rightarrow> True | _ \<Rightarrow> False)"

text \<open>
  The accumulator is as it was, and the actions since hold no write of a file.
\<close>

definition quiet :: "'w state \<Rightarrow> 'w state \<Rightarrow> bool" where
  "quiet s s' =
     (allEvents s' = allEvents s \<and>
      take (length (trace s)) (trace s') = trace s \<and>
      \<not> list_ex isWriteFile (drop (length (trace s)) (trace s')))"

text \<open>
  Nothing was recorded (the accumulator is as it was and no file was written), or the
  accumulator has got one more event at its end: one with this id and a results list
  that is not empty.
\<close>

definition appended :: "int \<Rightarrow> 'w state \<Rightarrow> 'w state \<Rightarrow> bool" where
  "appended eventId s s' =
     (quiet s s' \<or>
      (allEvents s' \<noteq> [] \<and> butlast (allEvents s') = allEvents s \<and>
       idE (last (allEvents s')) = eventId \<and> results (last (allEvents s')) \<noteq> []))"

text \<open>Every event of the accumulator has a results list that is not empty.\<close>

definition allNonEmpty :: "'w state \<Rightarrow> bool" where
  "allNonEmpty s = list_all (\<lambda>ev. results ev \<noteq> []) (allEvents s)"

text \<open>
  Relations that hold across every call of the environment but a write of a file, and
  compose.
\<close>

definition frame :: "('w state \<Rightarrow> 'w state \<Rightarrow> bool) \<Rightarrow> bool" where
  "frame R =
     ((\<forall>s. R s s) \<and>
      (\<forall>s w a. \<not> isWriteFile a \<longrightarrow> R s (s\<lparr>world := w, trace := trace s @ [a]\<rparr>)) \<and>
      (\<forall>a b c. R a b \<longrightarrow> R b c \<longrightarrow> R a c))"

section \<open>A simulated environment\<close>

text \<open>
  A small site for running the program on concrete inputs. Every event page shows the
  same pages of rows; the world is the list of pages from the one on display on.
\<close>

record site =
  gotoOk :: bool
  contentAppears :: bool
  tableAppears :: bool
  titleText :: "string option option"
  dateText :: "string option option"
  sitePages :: "element list list list"
  delayOk :: bool
  saveOk :: bool
  clock :: string

text \<open>The order of strings by their code units.\<close>

fun compareUnits :: "string \<Rightarrow> string \<Rightarrow> int" where
  "compareUnits [] [] = 0"
| "compareUnits [] (y # ys) = - 1"
| "compareUnits (x # xs) [] = 1"
| "compareUnits (x # xs) (y # ys) =
     (if (of_char x :: nat) < of_char y then - 1
      else if (of_char y :: nat) < of_char x then 1
      else compareUnits xs ys)"

text \<open>Printing of Numbers that are integers or short decimal fractions.\<close>

fun fractionDigits :: "nat \<Rightarrow> rat \<Rightarrow> string" where
  "fractionDigits 0 f = []"
| "fractionDigits (Suc k) f =
     (if f = 0 then []
      else natToString (nat \<lfloor>f * 10\<rfloor>) @ fractionDigits k (f * 10 - of_int \<lfloor>f * 10\<rfloor>))"

definition printRat :: "rat \<Rightarrow> string" where
  "printRat q =
     (if q = of_int \<lfloor>q\<rfloor> then natToString (nat \<lfloor>q\<rfloor>)
      else natToString (nat \<lfloor>q\<rfloor>) @ ''.'' @ fractionDigits 17 (q - of_int \<lfloor>q\<rfloor>))"

definition printNumber :: "number \<Rightarrow> string" where
  "printNumber n =
     (case n of
        NaN \<Rightarrow> ''NaN''
      | PosInfinity \<Rightarrow> ''Infinity''
      | NegInfinity \<Rightarrow> ''-Infinity''
      | Num q \<Rightarrow> if q < 0 then ''-'' @ printRat (- q) else printRat q)"

definition simEnv :: "site \<Rightarrow> (element list list list) env" where
  "simEnv S =
     \<lparr> launch = (\<lambda>w. (Inr (), w)),
       newContext = (\<lambda>w. (Inr (), w)),
       newPage = (\<lambda>w. (Inr (), w)),
       closeContext = (\<lambda>w. (Inr (), w)),
       closeBrowser = (\<lambda>w. (Inr (), w)),
       goto = (\<lambda>url w. if gotoOk S then (Inr (), sitePages S) else (Inl (Error ''navigation failed''), w)),
       waitForSelector = (\<lambda>sel ms w. if tableAppears S then (Inr (), w) else (Inl TimeoutError, w)),
       raceSelectors = (\<lambda>a b ms w. if contentAppears S then (Inr (), w) else (Inl TimeoutError, w)),
       evalTextContent =
         (\<lambda>sel w. case (if sel = nameSelector then titleText S else dateText S) of
                     None \<Rightarrow> (Inl (Error ''no element matches''), w)
                   | Some t \<Rightarrow> (Inr t, w)),
       evaluateRows = (\<lambda>w. (Inr (case w of [] \<Rightarrow> [] | p # _ \<Rightarrow> p), w)),
       queryNextButton = (\<lambda>w. (Inr (1 < length w), w)),
       click = (\<lambda>w. (Inr (), tl w)),
       waitForTimeout = (\<lambda>ms w. if delayOk S then (Inr (), w) else (Inl (Error ''page closed''), w)),
       writeFileSync = (\<lambda>path content w. if saveOk S then (Inr (), w) else (Inl (Error ''EACCES''), w)),
       toISOString = (\<lambda>w. clock S),
       localeCompare = compareUnits,
       numberToString = printNumber \<rparr>"

definition textCell :: "string \<Rightarrow> element" where
  "textCell t = Element (Some t)"

text \<open>A row of sixteen cells, in the layout of the results table.\<close>

definition smithRow :: "element list" where
  "smithRow = map textCell
     [[], [], [], ''Smith, J.'', ''81.5'', [], [], [],
      ''95'', ''100'', ''-105'', ''100'', ''130'', ''250'', ''125'', ''130'']"

definition doeRow :: "element list" where
  "doeRow = map textCell
     [[], [], [], ''Doe, Jane'', ''81.5'', [], [], [],
      ''95'', ''100'', ''-'', ''100'', ''120'', ''125'', ''130'', ''130'']"

text \<open>Two events as the crawler accumulates them, the later name first.\<close>

definition twoEvents :: "EventData list" where
  "twoEvents =
     [\<lparr>idE = 6178, name = ''Nationals'', date = ''2024-01-05'', results = [extractRow smithRow]\<rparr>,
      \<lparr>idE = 6177, name = ''Open'', date = ''2024-01-04'', results = [extractRow doeRow]\<rparr>]"

definition page :: "nat \<Rightarrow> element list list" where
  "page n = replicate n smithRow"

definition threePages :: site where
  "threePages =
     \<lparr> gotoOk = True, contentAppears = True, tableAppears = True,
       titleText = Some (Some ''  Nationals  ''), dateText = None,
       sitePages = [page 10, page 10, page 4],
       delayOk = True, saveOk = True, clock = ''2024-01-05T10:00:00.000Z'' \<rparr>"

text \<open>Variants of the site: what goes wrong, or is missing, on each.\<close>

definition onePage :: site where
  "onePage = threePages\<lparr> sitePages := [[smithRow]] \<rparr>"

definition emptyTable :: site where
  "emptyTable = threePages\<lparr> sitePages := [[]] \<rparr>"

definition noContent :: site where
  "noContent = threePages\<lparr> contentAppears := False \<rparr>"

definition blankTitle :: site where
  "blankTitle = onePage\<lparr> titleText := Some (Some ''   ''), dateText := Some (Some []) \<rparr>"

definition closedBrowser :: site where
  "closedBrowser = onePage\<lparr> gotoOk := False, delayOk := False \<rparr>"

definition unreachable :: site where
  "unreachable = onePage\<lparr> gotoOk := False \<rparr>"

definition readOnlyDisk :: site where
  "readOnlyDisk = onePage\<lparr> saveOk := False \<rparr>"

definition untitled :: site where
  "untitled = onePage\<lparr> titleText := None, dateText := Some (Some '' 2023-06-01 '') \<rparr>"

definition start :: "'w \<Rightarrow> 'w state" where
  "start w = \<lparr> world = w, trace = [], allEvents = [] \<rparr>"

section \<open>Properties of row extraction\<close>

lemmas parse_defs = parseFloat_def strDecimalLiteral_def strUnsignedDecimalLiteral_def
  exponentPart_def scale10_def decimalValue_def digitValue_def isDigit_def isWhiteSpace_def
  negate_def

lemma smithRow_cell_13: "getNumber (at_index smithRow 13) = Num 250"
  by (simp add: smithRow_def at_index_def getNumber_def truthyText_def textCell_def trim_def
      parse_defs or_else_def falsy_def)

text \<open>
  C1. For every row of cells, the fields \<open>total\<close> and \<open>cj1\<close> of the extracted record are
  both the number read from cell 13, so they are equal; \<open>cj\<close> is read from cell 12, and
  \<open>cj2\<close>, \<open>cj3\<close> from cells 14 and 15. On the row \<open>smithRow\<close>, whose cell 13 holds the text
  250, both \<open>cj1\<close> and \<open>total\<close> are 250.
\<close>

theorem total_is_cj1:
  "total (extractRow cells) = cj1 (extractRow cells)
   \<and> cj1 (extractRow cells) = getNumber (at_index cells 13)
   \<and> total (extractRow cells) = getNumber (at_index cells 13)
   \<and> cj (extractRow cells) = getNumber (at_index cells 12)
   \<and> cj2 (extractRow cells) = getNumber (at_index cells 14)
   \<and> cj3 (extractRow cells) = getNumber (at_index cells 15)
   \<and> cj1 (extractRow smithRow) = Num 250
   \<and> total (extractRow smithRow) = Num 250"
  by (simp add: extractRow_def smithRow_cell_13)

subsection \<open>What parseFloat reads\<close>









section \<open>Reasoning about computations\<close>

declare forEventId.simps [simp del]

lemma io_bind_cases:
  assumes "io_bind m f s = Some (r, s')"
  obtains (throws) e where "m s = Some (Inl e, s')" "r = Inl e"
        | (returns) x s1 where "m s = Some (Inr x, s1)" "f x s1 = Some (r, s')"
  using assms by (auto simp: io_bind_def split: option.splits sum.splits)

lemma io_catch_cases:
  assumes "io_catch m h s = Some (r, s')"
  obtains (caught) e s1 where "m s = Some (Inl e, s1)" "h e s1 = Some (r, s')"
        | (passed) x where "m s = Some (Inr x, s')" "r = Inr x"
  using assms by (auto simp: io_catch_def split: option.splits sum.splits)

lemma perform_cases:
  assumes "perform a op s = Some (r, s')"
  obtains w' where "op (world s) = (r, w')" "s' = s\<lparr>world := w', trace := trace s @ [a]\<rparr>"
  using assms by (auto simp: perform_def split: prod.splits)

lemma preserves_return: "(\<And>s. R s s) \<Longrightarrow> preserves R (io_return x)"
  by (simp add: preserves_def io_return_def)

lemma preserves_perform:
  "(\<And>s w t. R s (s\<lparr>world := w, trace := t\<rparr>)) \<Longrightarrow> preserves R (perform a op)"
  by (auto simp: preserves_def elim!: perform_cases)

lemma preserves_bind3:
  assumes "preserves R1 m" and "\<And>x. preserves R2 (f x)"
    and "\<And>a b. R1 a b \<Longrightarrow> R3 a b"
    and "\<And>a b c. R1 a b \<Longrightarrow> R2 b c \<Longrightarrow> R3 a c"
  shows "preserves R3 (io_bind m f)"
  unfolding preserves_def
proof (intro allI impI)
  fix s r s'
  assume "io_bind m f s = Some (r, s')"
  then show "R3 s s'"
  proof (cases rule: io_bind_cases)
    case (throws e)
    then show ?thesis using assms(1,3) by (auto simp: preserves_def)
  next
    case (returns x s1)
    then have "R1 s s1" "R2 s1 s'" using assms(1,2) by (auto simp: preserves_def)
    then show ?thesis using assms(4) by blast
  qed
qed

lemma preserves_catch3:
  assumes "preserves R1 m" and "\<And>e. preserves R2 (h e)"
    and "\<And>a b. R1 a b \<Longrightarrow> R3 a b"
    and "\<And>a b c. R1 a b \<Longrightarrow> R2 b c \<Longrightarrow> R3 a c"
  shows "preserves R3 (io_catch m h)"
  unfolding preserves_def
proof (intro allI impI)
  fix s r s'
  assume "io_catch m h s = Some (r, s')"
  then show "R3 s s'"
  proof (cases rule: io_catch_cases)
    case (caught e s1)
    then have "R1 s s1" "R2 s1 s'" using assms(1,2) by (auto simp: preserves_def)
    then show ?thesis using assms(4) by blast
  next
    case (passed x)
    then show ?thesis using assms(1,3) by (auto simp: preserves_def)
  qed
qed

lemma frame_return: "frame R \<Longrightarrow> preserves R (io_return x)"
  by (simp add: frame_def preserves_return)

lemma frame_perform: "frame R \<Longrightarrow> \<not> isWriteFile a \<Longrightarrow> preserves R (perform a op)"
  by (auto simp: frame_def preserves_def elim!: perform_cases)

lemma frame_bind: "frame R \<Longrightarrow> preserves R m \<Longrightarrow> (\<And>x. preserves R (f x)) \<Longrightarrow> preserves R (io_bind m f)"
  by (rule preserves_bind3 [where ?R1.0 = R and ?R2.0 = R]) (auto simp: frame_def)

lemma frame_catch: "frame R \<Longrightarrow> preserves R m \<Longrightarrow> (\<And>e. preserves R (h e)) \<Longrightarrow> preserves R (io_catch m h)"
  by (rule preserves_catch3 [where ?R1.0 = R and ?R2.0 = R]) (auto simp: frame_def)

lemma not_write_simps [simp]:
  "\<not> isWriteFile Launch" "\<not> isWriteFile NewContext" "\<not> isWriteFile NewPage"
  "\<not> isWriteFile CloseContext" "\<not> isWriteFile CloseBrowser"
  "\<not> isWriteFile (Goto u)" "\<not> isWriteFile (RaceSelectors a b n)"
  "\<not> isWriteFile (WaitForSelector a n)" "\<not> isWriteFile (WaitForTimeout n)"
  "\<not> isWriteFile (EvalTextContent a)" "\<not> isWriteFile EvaluateRows"
  "\<not> isWriteFile QueryNextButton" "\<not> isWriteFile Click"
  by (simp_all add: isWriteFile_def)

lemma preserves_if:
  "(c \<Longrightarrow> preserves R a) \<Longrightarrow> (\<not> c \<Longrightarrow> preserves R b) \<Longrightarrow> preserves R (if c then a else b)"
  by simp

lemma frame_pageStep:
  assumes "frame R" shows "preserves R (pageStep E acc)"
  unfolding pageStep_def Let_def
  by (intro frame_bind [OF assms] frame_perform [OF assms] frame_return [OF assms] preserves_if
      not_write_simps)

lemma frame_while_aux:
  assumes "frame R" and "whileHasNextPage E0 acc0 s0 = Some y0"
  shows "R s0 (snd y0)"
proof (rule whileHasNextPage.raw_induct [where P = "\<lambda>E acc s y. R s (snd y)", OF _ assms(2)])
  fix loop :: "'a env \<Rightarrow> CompetitionResult list \<Rightarrow> 'a state \<Rightarrow> ((exn + CompetitionResult list) \<times> 'a state) option"
  fix E acc s y
  assume IH: "\<And>E acc s y. loop E acc s = Some y \<Longrightarrow> R s (snd y)"
  assume eq: "(case pageStep E acc s of None \<Rightarrow> None
     | Some (Inl e, s') \<Rightarrow> Some (Inl e, s')
     | Some (Inr (allResults', hasNextPage), s') \<Rightarrow>
         if hasNextPage then loop E allResults' s' else Some (Inr allResults', s')) = Some y"
  show "R s (snd y)"
  proof (cases "pageStep E acc s")
    case None
    with eq show ?thesis by simp
  next
    case (Some a)
    obtain res s1 where a: "a = (res, s1)" by (cases a)
    have step: "R s s1" using frame_pageStep [OF assms(1), of E acc] Some a
      by (auto simp: preserves_def)
    show ?thesis
    proof (cases res)
      case (Inl e)
      with eq Some a step show ?thesis by auto
    next
      case (Inr b)
      obtain acc' more where b: "b = (acc', more)" by (cases b)
      show ?thesis
      proof (cases more)
        case True
        with eq Some a Inr b have "loop E acc' s1 = Some y" by simp
        then have "R s1 (snd y)" by (rule IH)
        with step assms(1) show ?thesis unfolding frame_def by blast
      next
        case False
        with eq Some a Inr b step show ?thesis by auto
      qed
    qed
  qed
qed

lemma frame_while: "frame R \<Longrightarrow> preserves R (whileHasNextPage E acc)"
  unfolding preserves_def using frame_while_aux by fastforce

lemma frame_scrapeEventResults: "frame R \<Longrightarrow> preserves R (scrapeEventResults E)"
  by (simp add: scrapeEventResults_def frame_while)

lemma frame_today: "frame R \<Longrightarrow> preserves R (today E)"
  by (auto simp: preserves_def today_def io_return_def frame_def)

lemma frame_extractName:
  assumes "frame R" shows "preserves R (extractName E i)"
  unfolding extractName_def
  by (intro frame_bind [OF assms] frame_catch [OF assms] frame_perform [OF assms]
      frame_return [OF assms] not_write_simps)

lemma frame_extractDate:
  assumes "frame R" shows "preserves R (extractDate E)"
  unfolding extractDate_def
  by (intro frame_bind [OF assms] frame_catch [OF assms] frame_perform [OF assms]
      frame_return [OF assms] frame_today [OF assms] not_write_simps)


lemma quiet_iff:
  "quiet s s' \<longleftrightarrow>
     allEvents s' = allEvents s \<and> (\<exists>tr. trace s' = trace s @ tr \<and> \<not> list_ex isWriteFile tr)"
proof
  assume q: "quiet s s'"
  then have "trace s' = trace s @ drop (length (trace s)) (trace s')"
    unfolding quiet_def by (metis append_take_drop_id)
  with q show "allEvents s' = allEvents s \<and> (\<exists>tr. trace s' = trace s @ tr \<and> \<not> list_ex isWriteFile tr)"
    unfolding quiet_def by blast
next
  assume "allEvents s' = allEvents s \<and> (\<exists>tr. trace s' = trace s @ tr \<and> \<not> list_ex isWriteFile tr)"
  then show "quiet s s'" by (auto simp: quiet_def)
qed

lemma quiet_trans:
  assumes "quiet a b" and "quiet b c"
  shows "quiet a c"
proof -
  from assms obtain t1 t2 where "allEvents b = allEvents a" "trace b = trace a @ t1"
    "\<not> list_ex isWriteFile t1" "allEvents c = allEvents b" "trace c = trace b @ t2"
    "\<not> list_ex isWriteFile t2"
    unfolding quiet_iff by blast
  then have "allEvents c = allEvents a" and "trace c = trace a @ (t1 @ t2)"
    and "\<not> list_ex isWriteFile (t1 @ t2)"
    by simp_all
  then show ?thesis unfolding quiet_iff by (intro conjI exI [of _ "t1 @ t2"])
qed

lemma frame_quiet: "frame quiet"
  unfolding frame_def
proof (intro conjI allI impI)
  fix s :: "'a state"
  show "quiet s s" by (simp add: quiet_def)
next
  fix s :: "'a state" and w a
  assume "\<not> isWriteFile a"
  then show "quiet s (s\<lparr>world := w, trace := trace s @ [a]\<rparr>)" by (simp add: quiet_def)
next
  fix a b c :: "'a state"
  assume "quiet a b" and "quiet b c"
  then show "quiet a c" by (rule quiet_trans)
qed

lemma appended_refl: "appended i s s"
  by (simp add: appended_def quiet_def)

lemma quiet_appended:
  assumes "quiet a b" and "appended i b c"
  shows "appended i a c"
proof (cases "quiet b c")
  case True
  from quiet_trans [OF assms(1) True] show ?thesis by (simp add: appended_def)
next
  case False
  moreover have "allEvents b = allEvents a" using assms(1) by (simp add: quiet_def)
  ultimately show ?thesis using assms(2) by (simp add: appended_def)
qed

lemma appended_quiet:
  assumes "appended i a b" and "quiet b c"
  shows "appended i a c"
proof (cases "quiet a b")
  case True
  from quiet_trans [OF True assms(2)] show ?thesis by (simp add: appended_def)
next
  case False
  moreover have "allEvents c = allEvents b" using assms(2) by (simp add: quiet_def)
  ultimately show ?thesis using assms(1) by (simp add: appended_def)
qed

lemma quiet_imp_appended: "quiet a b \<Longrightarrow> appended i a b"
  by (simp add: appended_def)

lemma quiet_then_appended:
  assumes "preserves quiet m" and "\<And>x. preserves (appended i) (f x)"
  shows "preserves (appended i) (io_bind m f)"
proof (rule preserves_bind3 [where ?R1.0 = quiet and ?R2.0 = "appended i"])
  show "preserves quiet m" by fact
  show "\<And>x. preserves (appended i) (f x)" by fact
  show "\<And>a b. quiet a b \<Longrightarrow> appended i a b" by (rule quiet_imp_appended)
  show "\<And>a b c. quiet a b \<Longrightarrow> appended i b c \<Longrightarrow> appended i a c" by (rule quiet_appended)
qed

lemma appended_then_quiet:
  assumes "preserves (appended i) m" and "\<And>x. preserves quiet (f x)"
  shows "preserves (appended i) (io_bind m f)"
proof (rule preserves_bind3 [where ?R1.0 = "appended i" and ?R2.0 = quiet])
  show "preserves (appended i) m" by fact
  show "\<And>x. preserves quiet (f x)" by fact
  show "\<And>a b. appended i a b \<Longrightarrow> appended i a b" by assumption
  show "\<And>a b c. appended i a b \<Longrightarrow> quiet b c \<Longrightarrow> appended i a c" by (rule appended_quiet)
qed

lemma recordEvent_appended: "preserves (appended i) (recordEvent E i n d rs)"
  by (auto simp: preserves_def recordEvent_def io_bind_def io_return_def pushEvent_def
      saveData_def perform_def appended_def quiet_def split: prod.splits if_splits)

lemmas quiet_intros = frame_bind [OF frame_quiet] frame_catch [OF frame_quiet]
  frame_perform [OF frame_quiet] frame_return [OF frame_quiet]
  frame_extractName [OF frame_quiet] frame_extractDate [OF frame_quiet]
  frame_scrapeEventResults [OF frame_quiet]

lemma tryBlock_appended: "preserves (appended i) (tryBlock E i)"
  unfolding tryBlock_def
  by (intro quiet_then_appended appended_then_quiet preserves_if quiet_intros recordEvent_appended
      preserves_return appended_refl not_write_simps)

lemma iteration_appended: "preserves (appended i) (iteration E i)"
  unfolding iteration_def
proof (rule preserves_catch3 [where ?R1.0 = "appended i" and ?R2.0 = quiet])
  show "preserves (appended i) (tryBlock E i)" by (rule tryBlock_appended)
  show "\<And>e. preserves quiet (perform (WaitForTimeout 2000) (waitForTimeout E 2000))"
    by (rule frame_perform [OF frame_quiet]) simp
  show "\<And>a b. appended i a b \<Longrightarrow> appended i a b" by assumption
  show "\<And>a b c. appended i a b \<Longrightarrow> quiet b c \<Longrightarrow> appended i a c" by (rule appended_quiet)
qed

lemma appended_allNonEmpty: "appended i s s' \<Longrightarrow> allNonEmpty s \<Longrightarrow> allNonEmpty s'"
proof -
  assume a: "appended i s s'" and n: "allNonEmpty s"
  show ?thesis
  proof (cases "allEvents s' = allEvents s")
    case True
    with n show ?thesis by (simp add: allNonEmpty_def)
  next
    case False
    with a have "\<not> quiet s s'" by (auto simp: quiet_def)
    with a have ne: "allEvents s' \<noteq> []" and b: "butlast (allEvents s') = allEvents s"
      and l: "results (last (allEvents s')) \<noteq> []"
      by (auto simp: appended_def)
    from ne have "allEvents s' = butlast (allEvents s') @ [last (allEvents s')]" by simp
    with b have "allEvents s' = allEvents s @ [last (allEvents s')]" by simp
    then have "list_all (\<lambda>ev. results ev \<noteq> []) (allEvents s') =
      (list_all (\<lambda>ev. results ev \<noteq> []) (allEvents s) \<and> results (last (allEvents s')) \<noteq> [])"
      by (metis list_all_append list.pred_inject(1) list.pred_inject(2))
    with n l show ?thesis by (simp add: allNonEmpty_def)
  qed
qed

lemma forEventId_allNonEmpty:
  "forEventId E endId eventId s = Some (r, s') \<Longrightarrow> allNonEmpty s \<Longrightarrow> allNonEmpty s'"
proof (induction E endId eventId s rule: forEventId.induct)
  case (1 E endId eventId s)
  show ?case
  proof (cases "endId \<le> eventId")
    case False
    with 1(2,3) show ?thesis by (simp add: forEventId.simps)
  next
    case True
    show ?thesis
    proof (cases "iteration E eventId s")
      case None
      with True 1(2) show ?thesis by (simp add: forEventId.simps)
    next
      case (Some a)
      obtain res s1 where a: "a = (res, s1)" by (cases a)
      have s1: "allNonEmpty s1"
        using iteration_appended [of eventId E] Some a 1(3)
        by (auto simp: preserves_def intro: appended_allNonEmpty)
      show ?thesis
      proof (cases res)
        case (Inl e)
        with True Some a 1(2) s1 show ?thesis by (simp add: forEventId.simps)
      next
        case (Inr u)
        with True Some a 1(2) have "forEventId E endId (eventId - 1) s1 = Some (r, s')"
          by (simp add: forEventId.simps)
        with 1(1) [OF True Some [unfolded a Inr] refl refl] s1 show ?thesis by simp
      qed
    qed
  qed
qed

section \<open>Properties of the paginator\<close>

lemma pageStep_last:
  assumes "waitForSelector E rowSelector 30000 (world s) = (Inr (), w1)"
    and "evaluateRows E w1 = (Inr rows, w2)"
    and "queryNextButton E w2 = (Inr False, w3)"
  shows "pageStep E acc s =
    Some (Inr (acc @ map extractRow rows, False), s\<lparr>world := w3, trace := trace s @ paginatorTrace 0\<rparr>)"
  using assms by (simp add: pageStep_def io_bind_def io_return_def perform_def Let_def)

lemma pageStep_next:
  assumes "waitForSelector E rowSelector 30000 (world s) = (Inr (), w1)"
    and "evaluateRows E w1 = (Inr rows, w2)"
    and "queryNextButton E w2 = (Inr True, w3)"
    and "click E w3 = (Inr (), w4)"
    and "waitForTimeout E 1000 w4 = (Inr (), w5)"
    and "waitForSelector E rowSelector 30000 w5 = (Inr (), w6)"
  shows "pageStep E acc s =
    Some (Inr (acc @ map extractRow rows, True),
          s\<lparr>world := w6,
            trace := trace s @ [WaitForSelector rowSelector 30000, EvaluateRows, QueryNextButton,
                                Click, WaitForTimeout 1000, WaitForSelector rowSelector 30000]\<rparr>)"
  using assms by (simp add: pageStep_def io_bind_def io_return_def perform_def Let_def)

lemma while_pagesFrom:
  assumes "pagesFrom E w ps w'"
  shows "world s = w \<Longrightarrow> whileHasNextPage E acc s =
    Some (Inr (acc @ concat (map (map extractRow) ps)),
          s\<lparr>world := w', trace := trace s @ paginatorTrace (length ps - 1)\<rparr>)"
  using assms
proof (induction arbitrary: acc s rule: pagesFrom.induct)
  case (lastPage w w1 rows w2 w3)
  then show ?case
    by (subst whileHasNextPage.simps) (simp add: pageStep_last [of E s w1 rows w2 w3])
next
  case (nextPage w w1 rows w2 w3 w4 w5 w6 ps w')
  have len: "length ps \<noteq> 0" using nextPage(7) by (cases rule: pagesFrom.cases) auto
  then obtain n where n: "length ps = Suc n" by (cases "length ps") auto
  let ?s1 = "s\<lparr>world := w6,
            trace := trace s @ [WaitForSelector rowSelector 30000, EvaluateRows, QueryNextButton,
                                Click, WaitForTimeout 1000, WaitForSelector rowSelector 30000]\<rparr>"
  have step: "pageStep E acc s = Some (Inr (acc @ map extractRow rows, True), ?s1)"
    using nextPage(1-6,9) by (simp add: pageStep_next [of E s w1 rows w2 w3 w4 w5 w6])
  have "whileHasNextPage E (acc @ map extractRow rows) ?s1 =
    Some (Inr ((acc @ map extractRow rows) @ concat (map (map extractRow) ps)),
          ?s1\<lparr>world := w', trace := trace ?s1 @ paginatorTrace (length ps - 1)\<rparr>)"
    by (rule nextPage(8)) simp
  then show ?case using step n
    by (subst whileHasNextPage.simps) simp
qed

lemma pageStep_returns:
  assumes "pageStep E acc s = Some (Inr (acc', again), s1)"
  shows "\<exists>w1 rows w2 w3.
      waitForSelector E rowSelector 30000 (world s) = (Inr (), w1) \<and>
      evaluateRows E w1 = (Inr rows, w2) \<and>
      acc' = acc @ map extractRow rows \<and>
      (if again then
         queryNextButton E w2 = (Inr True, w3) \<and>
         (\<exists>w4 w5. click E w3 = (Inr (), w4) \<and> waitForTimeout E 1000 w4 = (Inr (), w5) \<and>
            waitForSelector E rowSelector 30000 w5 = (Inr (), world s1))
       else queryNextButton E w2 = (Inr False, w3) \<and> world s1 = w3)"
  using assms
  by (auto simp: pageStep_def io_bind_def io_return_def perform_def Let_def
      split: prod.splits sum.splits if_splits)

lemma while_returns:
  assumes "whileHasNextPage E0 acc0 s0 = Some y0"
  shows "\<forall>rs s'. y0 = (Inr rs, s') \<longrightarrow>
     (\<exists>ps. pagesFrom E0 (world s0) ps (world s') \<and> rs = acc0 @ concat (map (map extractRow) ps))"
proof (rule whileHasNextPage.raw_induct [where P = "\<lambda>E acc s y. \<forall>rs s'. y = (Inr rs, s') \<longrightarrow>
     (\<exists>ps. pagesFrom E (world s) ps (world s') \<and> rs = acc @ concat (map (map extractRow) ps))", OF _ assms])
  fix loop :: "'a env \<Rightarrow> CompetitionResult list \<Rightarrow> 'a state \<Rightarrow> ((exn + CompetitionResult list) \<times> 'a state) option"
  fix E acc s y
  assume IH: "\<And>E acc s y. loop E acc s = Some y \<Longrightarrow> \<forall>rs s'. y = (Inr rs, s') \<longrightarrow>
     (\<exists>ps. pagesFrom E (world s) ps (world s') \<and> rs = acc @ concat (map (map extractRow) ps))"
  assume eq: "(case pageStep E acc s of None \<Rightarrow> None
     | Some (Inl e, s') \<Rightarrow> Some (Inl e, s')
     | Some (Inr (allResults', hasNextPage), s') \<Rightarrow>
         if hasNextPage then loop E allResults' s' else Some (Inr allResults', s')) = Some y"
  show "\<forall>rs s'. y = (Inr rs, s') \<longrightarrow>
     (\<exists>ps. pagesFrom E (world s) ps (world s') \<and> rs = acc @ concat (map (map extractRow) ps))"
  proof (intro allI impI)
    fix rs s'
    assume y: "y = (Inr rs, s')"
    from eq y obtain acc' again s1 where step: "pageStep E acc s = Some (Inr (acc', again), s1)"
      and rest: "(if again then loop E acc' s1 else Some (Inr acc', s1)) = Some (Inr rs, s')"
      by (auto split: option.splits sum.splits prod.splits)
    from pageStep_returns [OF step] obtain w1 rows w2 w3 where
      p1: "waitForSelector E rowSelector 30000 (world s) = (Inr (), w1)" and
      p2: "evaluateRows E w1 = (Inr rows, w2)" and
      p3: "acc' = acc @ map extractRow rows" and
      p4: "if again then
         queryNextButton E w2 = (Inr True, w3) \<and>
         (\<exists>w4 w5. click E w3 = (Inr (), w4) \<and> waitForTimeout E 1000 w4 = (Inr (), w5) \<and>
            waitForSelector E rowSelector 30000 w5 = (Inr (), world s1))
       else queryNextButton E w2 = (Inr False, w3) \<and> world s1 = w3"
      by blast
    show "\<exists>ps. pagesFrom E (world s) ps (world s') \<and> rs = acc @ concat (map (map extractRow) ps)"
    proof (cases again)
      case False
      with rest p4 have "rs = acc'" "world s' = w3" "queryNextButton E w2 = (Inr False, w3)" by auto
      with p1 p2 p3 have "pagesFrom E (world s) [rows] (world s')" "rs = acc @ concat (map (map extractRow) [rows])"
        by (auto intro: pagesFrom.lastPage)
      then show ?thesis by blast
    next
      case True
      with rest have "loop E acc' s1 = Some (Inr rs, s')" by simp
      from IH [OF this] obtain ps where ps: "pagesFrom E (world s1) ps (world s')"
        and rs: "rs = acc' @ concat (map (map extractRow) ps)" by blast
      from True p4 obtain w4 w5 where "queryNextButton E w2 = (Inr True, w3)" "click E w3 = (Inr (), w4)"
        "waitForTimeout E 1000 w4 = (Inr (), w5)" "waitForSelector E rowSelector 30000 w5 = (Inr (), world s1)"
        by auto
      with p1 p2 ps have "pagesFrom E (world s) (rows # ps) (world s')"
        by (auto intro: pagesFrom.nextPage)
      moreover have "rs = acc @ concat (map (map extractRow) (rows # ps))" using rs p3 by simp
      ultimately show ?thesis by blast
    qed
  qed
qed

text \<open>
  C4. The paginator goes to the next page while the page on display has an enabled
  next-page button and stops at the first page that has none: on a site that shows the
  pages \<open>ps\<close> (every page but the last with an enabled button, the last with none) it
  returns the rows of all the pages, in page order, after one click per page but the last;
  and whenever it returns, the site has shown such pages and the result is their rows.
  On a site with three pages of 10, 10 and 4 rows it returns 24 results.
\<close>

theorem paginator_pages:
  "(pagesFrom E (world s) ps w' \<longrightarrow>
      scrapeEventResults E s =
        Some (Inr (concat (map (map extractRow) ps)),
              s\<lparr>world := w', trace := trace s @ paginatorTrace (length ps - 1)\<rparr>))
   \<and> (scrapeEventResults E s = Some (Inr rs, s') \<longrightarrow>
      (\<exists>ps. pagesFrom E (world s) ps (world s') \<and> rs = concat (map (map extractRow) ps)))"
  using while_pagesFrom [of E "world s" ps w' s "[]"] while_returns [of E "[]" s "(Inr rs, s')"]
  by (auto simp: scrapeEventResults_def)

lemma threePages_shown:
  "pagesFrom (simEnv threePages) [page 10, page 10, page 4] [page 10, page 10, page 4] [page 4]"
proof -
  have 1: "pagesFrom (simEnv threePages) [page 4] [page 4] [page 4]"
    by (rule pagesFrom.lastPage [where ?w1.0 = "[page 4]" and ?w2.0 = "[page 4]"])
       (simp_all add: simEnv_def threePages_def)
  have 2: "pagesFrom (simEnv threePages) [page 10, page 4] [page 10, page 4] [page 4]"
    by (rule pagesFrom.nextPage [where ?w1.0 = "[page 10, page 4]" and ?w2.0 = "[page 10, page 4]"
          and ?w3.0 = "[page 10, page 4]" and ?w4.0 = "[page 4]" and ?w5.0 = "[page 4]", OF _ _ _ _ _ _ 1])
       (simp_all add: simEnv_def threePages_def)
  show ?thesis
    by (rule pagesFrom.nextPage [where ?w1.0 = "[page 10, page 10, page 4]" and ?w2.0 = "[page 10, page 10, page 4]"
          and ?w3.0 = "[page 10, page 10, page 4]" and ?w4.0 = "[page 10, page 4]" and ?w5.0 = "[page 10, page 4]", OF _ _ _ _ _ _ 2])
       (simp_all add: simEnv_def threePages_def)
qed

theorem paginator_pages_witness:
  "scrapeEventResults (simEnv threePages) (start [page 10, page 10, page 4]) =
     Some (Inr (concat (map (map extractRow) [page 10, page 10, page 4])),
           \<lparr>world = [page 4], trace = paginatorTrace 2, allEvents = []\<rparr>)
   \<and> length (concat (map (map extractRow) [page 10, page 10, page 4])) = 24
   \<and> length (filter (\<lambda>a. a = Click) (paginatorTrace 2)) = 2"
proof -
  have w: "world (start [page 10, page 10, page 4]) = [page 10, page 10, page 4]"
    by (simp add: start_def)
  have "scrapeEventResults (simEnv threePages) (start [page 10, page 10, page 4]) =
        Some (Inr (concat (map (map extractRow) [page 10, page 10, page 4])),
              (start [page 10, page 10, page 4])\<lparr>world := [page 4],
                 trace := trace (start [page 10, page 10, page 4]) @
                          paginatorTrace (length [page 10, page 10, page 4] - 1)\<rparr>)"
    using paginator_pages [of "simEnv threePages" "start [page 10, page 10, page 4]"
        "[page 10, page 10, page 4]" "[page 4]"]
      threePages_shown w by metis
  moreover have "(start [page 10, page 10, page 4])\<lparr>world := [page 4],
                 trace := trace (start [page 10, page 10, page 4]) @
                          paginatorTrace (length [page 10, page 10, page 4] - 1)\<rparr>
      = \<lparr>world = [page 4], trace = paginatorTrace 2, allEvents = []\<rparr>"
    by (simp add: start_def numeral_2_eq_2)
  moreover have "length (concat (map (map extractRow) [page 10, page 10, page 4])) = 24"
    by (simp add: page_def)
  moreover have "length (filter (\<lambda>a. a = Click) (paginatorTrace 2)) = 2"
    by (simp add: numeral_2_eq_2)
  ultimately show ?thesis by simp
qed

section \<open>Runs on the simulated sites\<close>

lemma selectors_differ: "dateSelector \<noteq> nameSelector"
  by (simp add: dateSelector_def nameSelector_def)

lemmas run_defs = tryBlock_def iteration_def extractName_def extractDate_def today_def
  recordEvent_def pushEvent_def saveData_def scrapeEventResults_def pageStep_def
  io_bind_def io_catch_def io_return_def io_finally_def perform_def simEnv_def start_def Let_def
  selectors_differ trimmedOrEmpty_def trim_def isWhiteSpace_def

lemmas site_defs = threePages_def onePage_def emptyTable_def noContent_def blankTitle_def
  closedBrowser_def unreachable_def readOnlyDisk_def untitled_def

lemma empty_run:
  "iteration (simEnv emptyTable) 6178 (start []) =
     Some (Inr (), \<lparr>world = [[]],
        trace = [Goto (eventUrl 6178), RaceSelectors rowSelector errorSelector 5000,
                 WaitForSelector rowSelector 5000, EvalTextContent nameSelector,
                 EvalTextContent dateSelector, WaitForSelector rowSelector 30000, EvaluateRows,
                 QueryNextButton, WaitForTimeout 2000],
        allEvents = []\<rparr>)"
  by (simp add: whileHasNextPage.simps run_defs site_defs)

lemma one_run:
  "iteration (simEnv onePage) 6178 (start []) =
     Some (Inr (), \<lparr>world = [[smithRow]],
        trace = [Goto (eventUrl 6178), RaceSelectors rowSelector errorSelector 5000,
                 WaitForSelector rowSelector 5000, EvalTextContent nameSelector,
                 EvalTextContent dateSelector, WaitForSelector rowSelector 30000, EvaluateRows,
                 QueryNextButton,
                 WriteFile outputFile (fileContent (simEnv onePage) ''2024-01-05T10:00:00.000Z''
                   [\<lparr>idE = 6178, name = ''Nationals'', date = ''2024-01-05'', results = [extractRow smithRow]\<rparr>]),
                 WaitForTimeout 2000],
        allEvents = [\<lparr>idE = 6178, name = ''Nationals'', date = ''2024-01-05'', results = [extractRow smithRow]\<rparr>]\<rparr>)"
  by (simp add: whileHasNextPage.simps run_defs site_defs)

section \<open>Properties of the crawler\<close>

lemma frame_allNonEmpty: "frame (\<lambda>s s'. allNonEmpty s \<longrightarrow> allNonEmpty s')"
  by (simp add: frame_def allNonEmpty_def)

lemma preserves_finally:
  assumes "frame R" and "preserves R m" and "preserves R fin"
  shows "preserves R (io_finally m fin)"
  unfolding preserves_def
proof (intro allI impI)
  fix s r s'
  assume "io_finally m fin s = Some (r, s')"
  then obtain r1 s1 r2 where "m s = Some (r1, s1)" "fin s1 = Some (r2, s')"
    by (auto simp: io_finally_def split: option.splits sum.splits prod.splits)
  then have "R s s1" "R s1 s'" using assms(2,3) by (auto simp: preserves_def)
  then show "R s s'" using assms(1) unfolding frame_def by blast
qed

lemma forEventId_preserves:
  "preserves (\<lambda>s s'. allNonEmpty s \<longrightarrow> allNonEmpty s') (forEventId E endId eventId)"
  unfolding preserves_def using forEventId_allNonEmpty by blast

lemma main_allNonEmpty:
  "preserves (\<lambda>s s'. allNonEmpty s \<longrightarrow> allNonEmpty s') (scrapeWeightliftingData E)"
  unfolding scrapeWeightliftingData_def
proof (intro frame_bind [OF frame_allNonEmpty] frame_perform [OF frame_allNonEmpty]
    frame_catch [OF frame_allNonEmpty] preserves_finally [OF frame_allNonEmpty]
    forEventId_preserves not_write_simps)
  show "preserves (\<lambda>s s'. allNonEmpty s \<longrightarrow> allNonEmpty s')
      (\<lambda>s. Some (Inr (), s\<lparr>allEvents := []\<rparr>))"
    by (simp add: preserves_def allNonEmpty_def)
  show "\<And>e. preserves (\<lambda>s s'. allNonEmpty s \<longrightarrow> allNonEmpty s') (\<lambda>s. Some (Inl e, s))"
    by (simp add: preserves_def)
qed

text \<open>
  C3. An event with an empty results list is not recorded: given an empty list, the
  accumulator and the trace stay as they are, so nothing is appended and nothing is
  written. Every iteration either records nothing, leaving the accumulator as it was and
  writing no file, or appends one event whose results list is not empty. So every event
  of the accumulator has a results list that is not empty after each iteration, after the
  loop and at the end of the crawl, however they end.
\<close>

theorem empty_results_not_recorded:
  "recordEvent E eventId eventName eventDate [] s = Some (Inr (), s)
   \<and> (iteration E eventId s = Some (r, s') \<longrightarrow> appended eventId s s')
   \<and> (allNonEmpty s \<and> iteration E eventId s = Some (r, s') \<longrightarrow> allNonEmpty s')
   \<and> (allNonEmpty s \<and> forEventId E endId eventId s = Some (r, s') \<longrightarrow> allNonEmpty s')
   \<and> (allNonEmpty s \<and> scrapeWeightliftingData E s = Some (r, s') \<longrightarrow> allNonEmpty s')"
proof -
  have 1: "recordEvent E eventId eventName eventDate [] s = Some (Inr (), s)"
    by (simp add: recordEvent_def io_return_def)
  have 2: "iteration E eventId s = Some (r, s') \<longrightarrow> appended eventId s s'"
    using iteration_appended [of eventId E] unfolding preserves_def by blast
  have 3: "allNonEmpty s \<and> iteration E eventId s = Some (r, s') \<longrightarrow> allNonEmpty s'"
    using 2 appended_allNonEmpty by blast
  have 4: "allNonEmpty s \<and> forEventId E endId eventId s = Some (r, s') \<longrightarrow> allNonEmpty s'"
    using forEventId_allNonEmpty by blast
  have 5: "allNonEmpty s \<and> scrapeWeightliftingData E s = Some (r, s') \<longrightarrow> allNonEmpty s'"
    using main_allNonEmpty [of E] unfolding preserves_def by blast
  from 1 2 3 4 5 show ?thesis by blast
qed

theorem empty_results_not_recorded_witness:
  "iteration (simEnv emptyTable) 6178 (start []) =
     Some (Inr (), \<lparr>world = [[]],
        trace = [Goto (eventUrl 6178), RaceSelectors rowSelector errorSelector 5000,
                 WaitForSelector rowSelector 5000, EvalTextContent nameSelector,
                 EvalTextContent dateSelector, WaitForSelector rowSelector 30000, EvaluateRows,
                 QueryNextButton, WaitForTimeout 2000],
        allEvents = []\<rparr>)
   \<and> appended 6178 (start ([] :: element list list list))
        \<lparr>world = [[]],
         trace = [Goto (eventUrl 6178), RaceSelectors rowSelector errorSelector 5000,
                 WaitForSelector rowSelector 5000, EvalTextContent nameSelector,
                 EvalTextContent dateSelector, WaitForSelector rowSelector 30000, EvaluateRows,
                 QueryNextButton, WaitForTimeout 2000],
         allEvents = []\<rparr>
   \<and> allNonEmpty
        \<lparr>world = [[smithRow]],
         trace = [Goto (eventUrl 6178), RaceSelectors rowSelector errorSelector 5000,
                 WaitForSelector rowSelector 5000, EvalTextContent nameSelector,
                 EvalTextContent dateSelector, WaitForSelector rowSelector 30000, EvaluateRows,
                 QueryNextButton,
                 WriteFile outputFile (fileContent (simEnv onePage) ''2024-01-05T10:00:00.000Z''
                   [\<lparr>idE = 6178, name = ''Nationals'', date = ''2024-01-05'', results = [extractRow smithRow]\<rparr>]),
                 WaitForTimeout 2000],
         allEvents = [\<lparr>idE = 6178, name = ''Nationals'', date = ''2024-01-05'', results = [extractRow smithRow]\<rparr>]\<rparr>"
  (is "?run \<and> appended 6178 _ ?s1 \<and> allNonEmpty ?s2")
proof -
  have a: "allNonEmpty (start ([] :: element list list list))"
    by (simp add: allNonEmpty_def start_def)
  have run1: "iteration (simEnv emptyTable) 6178 (start []) = Some (Inr (), ?s1)"
    by (rule empty_run)
  have run2: "iteration (simEnv onePage) 6178 (start []) = Some (Inr (), ?s2)"
    by (rule one_run)
  have 1: "appended 6178 (start []) ?s1"
    by (rule empty_results_not_recorded [of "simEnv emptyTable" 6178 "[]" "[]" "start []" "Inr ()" ?s1 0,
          THEN conjunct2, THEN conjunct1, THEN mp, OF run1])
  have 2: "allNonEmpty ?s2"
    by (rule empty_results_not_recorded [of "simEnv onePage" 6178 "[]" "[]" "start []" "Inr ()" ?s2 0,
          THEN conjunct2, THEN conjunct2, THEN conjunct1, THEN mp, OF conjI [OF a run2]])
  from run1 1 2 show ?thesis by (intro conjI)
qed

section \<open>Properties of the fallbacks\<close>

lemma event_6178: "intToString 6178 = ''6178''"
  by (simp add: intToString_def)

text \<open>
  C6, as stated, on a page whose title element holds only white space and whose date
  element holds the empty text: extraction yields empty text, and the name and the date
  are the empty string, not \<^verbatim>\<open>Event 6178\<close> and not the current date.
\<close>

theorem blank_text_no_fallback:
  "extractName (simEnv blankTitle) 6178 (start []) =
     Some (Inr [], \<lparr>world = [], trace = [EvalTextContent nameSelector], allEvents = []\<rparr>)
   \<and> extractDate (simEnv blankTitle) (start []) =
     Some (Inr [], \<lparr>world = [], trace = [EvalTextContent dateSelector], allEvents = []\<rparr>)
   \<and> ''Event '' @ intToString 6178 \<noteq> []
   \<and> takeWhile (\<lambda>c. c \<noteq> CHR ''T'') (toISOString (simEnv blankTitle) []) = ''2024-01-05''"
  by (simp add: run_defs site_defs)

text \<open>
  C6, amended. The name and the date are extracted independently. Each falls back to its
  default (\<^verbatim>\<open>Event {id}\<close> for the name, the current date for the date) exactly when
  its extraction throws, as it does when no element matches. When the element is found,
  the value is its trimmed text, which is the empty string when that text is empty.
\<close>

theorem fallback_when_extraction_throws:
  "(evalTextContent E nameSelector (world s) = (Inl e, w') \<longrightarrow>
      extractName E eventId s =
        Some (Inr (''Event '' @ intToString eventId),
              s\<lparr>world := w', trace := trace s @ [EvalTextContent nameSelector]\<rparr>))
   \<and> (evalTextContent E nameSelector (world s) = (Inr t, w') \<longrightarrow>
      extractName E eventId s =
        Some (Inr (trimmedOrEmpty t),
              s\<lparr>world := w', trace := trace s @ [EvalTextContent nameSelector]\<rparr>))
   \<and> (evalTextContent E dateSelector (world s) = (Inl e, w') \<longrightarrow>
      extractDate E s =
        Some (Inr (takeWhile (\<lambda>c. c \<noteq> CHR ''T'') (toISOString E w')),
              s\<lparr>world := w', trace := trace s @ [EvalTextContent dateSelector]\<rparr>))
   \<and> (evalTextContent E dateSelector (world s) = (Inr t, w') \<longrightarrow>
      extractDate E s =
        Some (Inr (trimmedOrEmpty t),
              s\<lparr>world := w', trace := trace s @ [EvalTextContent dateSelector]\<rparr>))"
  by (simp add: extractName_def extractDate_def today_def io_catch_def io_bind_def io_return_def
      perform_def)

theorem fallback_when_extraction_throws_witness:
  "extractName (simEnv untitled) 6178 (start []) =
     Some (Inr ''Event 6178'', \<lparr>world = [], trace = [EvalTextContent nameSelector], allEvents = []\<rparr>)
   \<and> extractDate (simEnv untitled) (start []) =
     Some (Inr ''2023-06-01'', \<lparr>world = [], trace = [EvalTextContent dateSelector], allEvents = []\<rparr>)
   \<and> extractName (simEnv threePages) 6178 (start []) =
     Some (Inr ''Nationals'', \<lparr>world = [], trace = [EvalTextContent nameSelector], allEvents = []\<rparr>)
   \<and> extractDate (simEnv threePages) (start []) =
     Some (Inr ''2024-01-05'', \<lparr>world = [], trace = [EvalTextContent dateSelector], allEvents = []\<rparr>)"
proof -
  let ?s = "start ([] :: element list list list)"
  have n1: "evalTextContent (simEnv untitled) nameSelector (world ?s) = (Inl (Error ''no element matches''), [])"
    and d1: "evalTextContent (simEnv untitled) dateSelector (world ?s) = (Inr (Some '' 2023-06-01 ''), [])"
    and n2: "evalTextContent (simEnv threePages) nameSelector (world ?s) = (Inr (Some ''  Nationals  ''), [])"
    and d2: "evalTextContent (simEnv threePages) dateSelector (world ?s) = (Inl (Error ''no element matches''), [])"
    by (simp_all add: simEnv_def site_defs start_def selectors_differ)
  have t1: "trimmedOrEmpty (Some '' 2023-06-01 '') = ''2023-06-01''"
    and t2: "trimmedOrEmpty (Some ''  Nationals  '') = ''Nationals''"
    by (simp_all add: trimmedOrEmpty_def trim_def isWhiteSpace_def)
  have c: "takeWhile (\<lambda>c. c \<noteq> CHR ''T'') (toISOString (simEnv threePages) []) = ''2024-01-05''"
    by (simp add: simEnv_def site_defs)
  have u: "?s\<lparr>world := [], trace := trace ?s @ [EvalTextContent nameSelector]\<rparr>
           = \<lparr>world = [], trace = [EvalTextContent nameSelector], allEvents = []\<rparr>"
    "?s\<lparr>world := [], trace := trace ?s @ [EvalTextContent dateSelector]\<rparr>
           = \<lparr>world = [], trace = [EvalTextContent dateSelector], allEvents = []\<rparr>"
    by (simp_all add: start_def)
  note T1 = fallback_when_extraction_throws [of "simEnv untitled" ?s "Error ''no element matches''" "[]" 6178
      "Some '' 2023-06-01 ''"]
  note T2 = fallback_when_extraction_throws [of "simEnv threePages" ?s "Error ''no element matches''" "[]" 6178
      "Some ''  Nationals  ''"]
  have 1: "extractName (simEnv untitled) 6178 ?s =
     Some (Inr ''Event 6178'', \<lparr>world = [], trace = [EvalTextContent nameSelector], allEvents = []\<rparr>)"
    using T1 [THEN conjunct1, THEN mp, OF n1] by (simp only: u event_6178 append.simps)
  have 2: "extractDate (simEnv untitled) ?s =
     Some (Inr ''2023-06-01'', \<lparr>world = [], trace = [EvalTextContent dateSelector], allEvents = []\<rparr>)"
    using T1 [THEN conjunct2, THEN conjunct2, THEN conjunct2, THEN mp, OF d1] by (simp only: u t1)
  have 3: "extractName (simEnv threePages) 6178 ?s =
     Some (Inr ''Nationals'', \<lparr>world = [], trace = [EvalTextContent nameSelector], allEvents = []\<rparr>)"
    using T2 [THEN conjunct2, THEN conjunct1, THEN mp, OF n2] by (simp only: u t2)
  have 4: "extractDate (simEnv threePages) ?s =
     Some (Inr ''2024-01-05'', \<lparr>world = [], trace = [EvalTextContent dateSelector], allEvents = []\<rparr>)"
    using T2 [THEN conjunct2, THEN conjunct2, THEN conjunct1, THEN mp, OF d2] by (simp only: u c)
  from 1 2 3 4 show ?thesis by (intro conjI)
qed

section \<open>Properties of the delay and of the per-event handler\<close>

text \<open>
  C7 on a site where neither the results table nor an error marker appears: the crawl
  goes from event 6178 to event 6177 with no delay in between. The race of the two waits
  rejects, the iteration is skipped by \<^verbatim>\<open>continue\<close>, and the next navigation follows at once.
\<close>

theorem skipped_event_has_no_delay:
  "forEventId (simEnv noContent) 6177 6178 (start []) =
     Some (Inr (), \<lparr>world = [page 10, page 10, page 4],
        trace = [Goto (eventUrl 6178), RaceSelectors rowSelector errorSelector 5000,
                 Goto (eventUrl 6177), RaceSelectors rowSelector errorSelector 5000],
        allEvents = []\<rparr>)"
  by (simp add: forEventId.simps run_defs site_defs)

text \<open>
  C8, as stated, on a browser that has closed: the navigation to the first event throws,
  the handler's own delay throws too, and that exception leaves the loop. The crawl ends
  with it after one event id.
\<close>

theorem crawl_aborts_when_delay_throws:
  "scrapeWeightliftingData (simEnv closedBrowser) (start []) =
     Some (Inl (Error ''page closed''),
       \<lparr>world = [], trace = [Launch, NewContext, NewPage, Goto (eventUrl 6178), WaitForTimeout 2000,
                 CloseContext, CloseBrowser], allEvents = []\<rparr>)"
  by (simp add: scrapeWeightliftingData_def forEventId.simps START_ID_def END_ID_def run_defs site_defs)

text \<open>
  C8, amended. An exception raised inside the per-event \<^verbatim>\<open>try\<close> block (by the navigation,
  a wait, the extraction, the pagination, the saving or the closing delay) is caught by
  the handler of that iteration. The accumulator keeps what it held when the exception
  was raised: the events of the earlier iterations and, when the event had already been
  pushed, this event too. The handler then waits 2 seconds; when that wait returns the
  crawl goes on with the next id, and when it throws the crawl ends with that exception.
\<close>

theorem try_block_exception_caught:
  "tryBlock E eventId s = Some (Inl e, s1) \<longrightarrow>
     appended eventId s s1
     \<and> (waitForTimeout E 2000 (world s1) = (Inr (), w2) \<and> endId \<le> eventId \<longrightarrow>
          iteration E eventId s =
            Some (Inr (), s1\<lparr>world := w2, trace := trace s1 @ [WaitForTimeout 2000]\<rparr>)
          \<and> forEventId E endId eventId s =
            forEventId E endId (eventId - 1) (s1\<lparr>world := w2, trace := trace s1 @ [WaitForTimeout 2000]\<rparr>))
     \<and> (waitForTimeout E 2000 (world s1) = (Inl e2, w2) \<and> endId \<le> eventId \<longrightarrow>
          forEventId E endId eventId s =
            Some (Inl e2, s1\<lparr>world := w2, trace := trace s1 @ [WaitForTimeout 2000]\<rparr>))"
proof (intro impI conjI)
  assume t: "tryBlock E eventId s = Some (Inl e, s1)"
  show "appended eventId s s1"
    using tryBlock_appended [of eventId E] t unfolding preserves_def by blast
next
  assume t: "tryBlock E eventId s = Some (Inl e, s1)"
    and w: "waitForTimeout E 2000 (world s1) = (Inr (), w2) \<and> endId \<le> eventId"
  then show it: "iteration E eventId s =
            Some (Inr (), s1\<lparr>world := w2, trace := trace s1 @ [WaitForTimeout 2000]\<rparr>)"
    by (simp add: iteration_def io_catch_def perform_def)
  with w show "forEventId E endId eventId s =
            forEventId E endId (eventId - 1) (s1\<lparr>world := w2, trace := trace s1 @ [WaitForTimeout 2000]\<rparr>)"
    by (subst forEventId.simps) simp
next
  assume t: "tryBlock E eventId s = Some (Inl e, s1)"
    and w: "waitForTimeout E 2000 (world s1) = (Inl e2, w2) \<and> endId \<le> eventId"
  then have "iteration E eventId s =
            Some (Inl e2, s1\<lparr>world := w2, trace := trace s1 @ [WaitForTimeout 2000]\<rparr>)"
    by (simp add: iteration_def io_catch_def perform_def)
  with w show "forEventId E endId eventId s =
            Some (Inl e2, s1\<lparr>world := w2, trace := trace s1 @ [WaitForTimeout 2000]\<rparr>)"
    by (subst forEventId.simps) simp
qed

lemma unreachable_try:
  "tryBlock (simEnv unreachable) 6178 (start []) =
     Some (Inl (Error ''navigation failed''),
           \<lparr>world = [], trace = [Goto (eventUrl 6178)], allEvents = []\<rparr>)"
  by (simp add: run_defs site_defs)

lemma unreachable_rest:
  "forEventId (simEnv unreachable) 6177 (6178 - 1)
     (\<lparr>world = [], trace = [Goto (eventUrl 6178)], allEvents = []\<rparr>
        \<lparr>world := [], trace := trace \<lparr>world = [], trace = [Goto (eventUrl 6178)], allEvents = []\<rparr> @ [WaitForTimeout 2000]\<rparr>) =
     Some (Inr (), \<lparr>world = [],
        trace = [Goto (eventUrl 6178), WaitForTimeout 2000, Goto (eventUrl 6177), WaitForTimeout 2000],
        allEvents = []\<rparr>)"
  by (simp add: forEventId.simps run_defs site_defs)

lemma readOnlyDisk_try:
  "tryBlock (simEnv readOnlyDisk) 6178 (start []) =
     Some (Inl (Error ''EACCES''),
       \<lparr>world = [[smithRow]],
        trace = [Goto (eventUrl 6178), RaceSelectors rowSelector errorSelector 5000,
                 WaitForSelector rowSelector 5000, EvalTextContent nameSelector,
                 EvalTextContent dateSelector, WaitForSelector rowSelector 30000, EvaluateRows,
                 QueryNextButton,
                 WriteFile outputFile (fileContent (simEnv readOnlyDisk) ''2024-01-05T10:00:00.000Z''
                   [\<lparr>idE = 6178, name = ''Nationals'', date = ''2024-01-05'', results = [extractRow smithRow]\<rparr>])],
        allEvents = [\<lparr>idE = 6178, name = ''Nationals'', date = ''2024-01-05'', results = [extractRow smithRow]\<rparr>]\<rparr>)"
  by (simp add: whileHasNextPage.simps run_defs site_defs)

theorem try_block_exception_caught_witness:
  "forEventId (simEnv unreachable) 6177 6178 (start []) =
     Some (Inr (), \<lparr>world = [],
        trace = [Goto (eventUrl 6178), WaitForTimeout 2000, Goto (eventUrl 6177), WaitForTimeout 2000],
        allEvents = []\<rparr>)
   \<and> appended 6178 (start ([] :: element list list list))
       \<lparr>world = [[smithRow]],
        trace = [Goto (eventUrl 6178), RaceSelectors rowSelector errorSelector 5000,
                 WaitForSelector rowSelector 5000, EvalTextContent nameSelector,
                 EvalTextContent dateSelector, WaitForSelector rowSelector 30000, EvaluateRows,
                 QueryNextButton,
                 WriteFile outputFile (fileContent (simEnv readOnlyDisk) ''2024-01-05T10:00:00.000Z''
                   [\<lparr>idE = 6178, name = ''Nationals'', date = ''2024-01-05'', results = [extractRow smithRow]\<rparr>])],
        allEvents = [\<lparr>idE = 6178, name = ''Nationals'', date = ''2024-01-05'', results = [extractRow smithRow]\<rparr>]\<rparr>"
  (is "?run \<and> appended 6178 _ ?s2")
proof -
  let ?s1 = "\<lparr>world = ([] :: element list list list), trace = [Goto (eventUrl 6178)], allEvents = []\<rparr>"
  have d: "waitForTimeout (simEnv unreachable) 2000 (world ?s1) = (Inr (), []) \<and> (6177 :: int) \<le> 6178"
    by (simp add: simEnv_def site_defs)
  have "forEventId (simEnv unreachable) 6177 6178 (start []) =
        forEventId (simEnv unreachable) 6177 (6178 - 1)
          (?s1\<lparr>world := [], trace := trace ?s1 @ [WaitForTimeout 2000]\<rparr>)"
    by (rule try_block_exception_caught [of "simEnv unreachable" 6178 "start []"
          "Error ''navigation failed''" ?s1 "[]" 6177,
          THEN mp, OF unreachable_try, THEN conjunct2, THEN conjunct1, THEN mp, OF d, THEN conjunct2])
  then have 1: ?run by (simp only: unreachable_rest)
  have 2: "appended 6178 (start []) ?s2"
    by (rule try_block_exception_caught [of "simEnv readOnlyDisk" 6178 "start []" "Error ''EACCES''" ?s2,
          THEN mp, OF readOnlyDisk_try, THEN conjunct1])
  from 1 2 show ?thesis by (intro conjI)
qed

section \<open>Properties of the writer\<close>

lemma mset_insertBy: "mset (insertBy cmp x ys) = add_mset x (mset ys)"
  by (induction ys) simp_all

lemma mset_sortBy: "mset (sortBy cmp xs) = mset xs"
  by (induction xs) (simp_all add: sortBy_def mset_insertBy)

lemma set_insertBy: "set (insertBy cmp x ys) = insert x (set ys)"
  by (induction ys) auto

lemma sorted_insertBy:
  assumes "consistent cmp" and "sorted_wrt (\<lambda>a b. cmp a b \<le> 0) ys"
  shows "sorted_wrt (\<lambda>a b. cmp a b \<le> 0) (insertBy cmp x ys)"
  using assms(2)
proof (induction ys)
  case Nil
  then show ?case by simp
next
  case (Cons y ys)
  have total: "\<And>a b. cmp a b \<le> 0 \<or> cmp b a \<le> 0"
    and trans: "\<And>a b c. cmp a b \<le> 0 \<Longrightarrow> cmp b c \<le> 0 \<Longrightarrow> cmp a c \<le> 0"
    using assms(1) unfolding consistent_def by blast+
  show ?case
  proof (cases "cmp x y \<le> 0")
    case True
    then have "\<forall>z\<in>set ys. cmp x z \<le> 0" using Cons.prems trans by auto
    with True Cons.prems show ?thesis by simp
  next
    case False
    then have "cmp y x \<le> 0" using total by blast
    with False Cons show ?thesis by (auto simp: set_insertBy)
  qed
qed

lemma sorted_sortBy:
  "consistent cmp \<Longrightarrow> sorted_wrt (\<lambda>a b. cmp a b \<le> 0) (sortBy cmp xs)"
proof (induction xs)
  case Nil
  then show ?case by (simp add: sortBy_def)
next
  case (Cons x xs)
  then have "sorted_wrt (\<lambda>a b. cmp a b \<le> 0) (insertBy cmp x (sortBy cmp xs))"
    by (simp add: sorted_insertBy)
  then show ?case by (simp add: sortBy_def)
qed

text \<open>Stability: elements that compare equal to \<open>k\<close> keep their order.\<close>

lemma filter_insertBy:
  assumes "consistent cmp" and "sorted_wrt (\<lambda>a b. cmp a b \<le> 0) ys"
  shows "filter (\<lambda>y. cmp k y \<le> 0 \<and> cmp y k \<le> 0) (insertBy cmp x ys) =
         filter (\<lambda>y. cmp k y \<le> 0 \<and> cmp y k \<le> 0) (x # ys)"
  using assms(2)
proof (induction ys)
  case Nil
  then show ?case by simp
next
  case (Cons y ys)
  have total: "\<And>a b. cmp a b \<le> 0 \<or> cmp b a \<le> 0"
    and trans: "\<And>a b c. cmp a b \<le> 0 \<Longrightarrow> cmp b c \<le> 0 \<Longrightarrow> cmp a c \<le> 0"
    using assms(1) unfolding consistent_def by blast+
  show ?case
  proof (cases "cmp x y \<le> 0")
    case True
    then show ?thesis by simp
  next
    case False
    then have yx: "cmp y x \<le> 0" using total by blast
    have IH: "filter (\<lambda>y. cmp k y \<le> 0 \<and> cmp y k \<le> 0) (insertBy cmp x ys) =
         filter (\<lambda>y. cmp k y \<le> 0 \<and> cmp y k \<le> 0) (x # ys)"
      using Cons by simp
    have "\<not> (cmp k x \<le> 0 \<and> cmp x k \<le> 0 \<and> cmp k y \<le> 0 \<and> cmp y k \<le> 0)"
      using False trans by blast
    then show ?thesis using False IH by auto
  qed
qed


lemma filter_sortBy:
  assumes "consistent cmp"
  shows "filter (\<lambda>y. cmp k y \<le> 0 \<and> cmp y k \<le> 0) (sortBy cmp xs) =
         filter (\<lambda>y. cmp k y \<le> 0 \<and> cmp y k \<le> 0) xs"
proof (induction xs)
  case Nil
  then show ?case by (simp add: sortBy_def)
next
  case (Cons x xs)
  have "filter (\<lambda>y. cmp k y \<le> 0 \<and> cmp y k \<le> 0) (insertBy cmp x (sortBy cmp xs)) =
        filter (\<lambda>y. cmp k y \<le> 0 \<and> cmp y k \<le> 0) (x # sortBy cmp xs)"
    by (rule filter_insertBy [OF assms sorted_sortBy [OF assms]])
  with Cons show ?case by (simp add: sortBy_def)
qed

lemma consistent_on_lifter:
  "consistent cmp \<Longrightarrow> consistent (\<lambda>a b. cmp (lifter a) (lifter b))"
  unfolding consistent_def by blast

lemma compareUnits_total: "compareUnits a b \<le> 0 \<or> compareUnits b a \<le> 0"
  by (induction a b rule: compareUnits.induct) auto

lemma compareUnits_trans:
  "compareUnits a b \<le> 0 \<Longrightarrow> compareUnits b c \<le> 0 \<Longrightarrow> compareUnits a c \<le> 0"
proof (induction a arbitrary: b c)
  case Nil
  then show ?case by (cases c) auto
next
  case (Cons x xs)
  then obtain y ys where b: "b = y # ys" by (cases b) auto
  with Cons.prems obtain z zs where c: "c = z # zs" by (cases c) auto
  show ?case
  proof (cases "(of_char x :: nat) < of_char z")
    case True
    with c show ?thesis by simp
  next
    case False
    from Cons.prems(1) b have xy: "(of_char x :: nat) \<le> of_char y"
      by (auto split: if_splits)
    from Cons.prems(2) b c have yz: "(of_char y :: nat) \<le> of_char z"
      by (auto split: if_splits)
    from False have zx: "(of_char z :: nat) \<le> of_char x" by simp
    from yz zx have yx: "(of_char y :: nat) \<le> of_char x" by (rule order_trans)
    from zx xy have zy: "(of_char z :: nat) \<le> of_char y" by (rule order_trans)
    from xy yx have "(of_char x :: nat) = of_char y" by (rule order.antisym)
    then have xy': "x = y" by simp
    from yz zy have "(of_char y :: nat) = of_char z" by (rule order.antisym)
    then have yz': "y = z" by simp
    from Cons.prems b c xy' yz' have "compareUnits xs ys \<le> 0" "compareUnits ys zs \<le> 0"
      by (auto split: if_splits)
    then have "compareUnits xs zs \<le> 0" by (rule Cons.IH)
    with xy' yz' c show ?thesis by simp
  qed
qed

lemma compareUnits_consistent: "consistent compareUnits"
  unfolding consistent_def using compareUnits_total compareUnits_trans by blast

text \<open>
  C2. For every list of events given to the writer, and a host whose locale comparison
  is consistent: the list the writer renders is a rearrangement of the flattening of all
  the events' results, sorted ascending by lifter name under that comparison, with
  results of equal names in their order in the flattening; so it is sorted whatever the
  order of the events and rows. The text written to the output file is the header, the
  entries of that list joined by a comma and a newline, and the footer.
\<close>

theorem output_sorted_by_lifter:
  assumes "consistent (localeCompare E)"
  shows "sorted_wrt (\<lambda>a b. localeCompare E (lifter a) (lifter b) \<le> 0) (sortedResults E data)
    \<and> mset (sortedResults E data) = mset (concat (map results data))
    \<and> filter (\<lambda>y. localeCompare E (lifter (k :: CompetitionResult)) (lifter y) \<le> 0
                   \<and> localeCompare E (lifter y) (lifter k) \<le> 0)
         (sortedResults E data) =
       filter (\<lambda>y. localeCompare E (lifter k) (lifter y) \<le> 0 \<and> localeCompare E (lifter y) (lifter k) \<le> 0)
         (concat (map results data))
    \<and> fileContent E stamp data =
        tsContent stamp (join ('','' @ newline) (map (formatResult E) (sortedResults E data)))
    \<and> saveData E data s =
        perform (WriteFile outputFile (fileContent E (toISOString E (world s)) data))
          (writeFileSync E outputFile (fileContent E (toISOString E (world s)) data)) s"
proof -
  let ?cmp = "\<lambda>(a :: CompetitionResult) (b :: CompetitionResult). localeCompare E (lifter a) (lifter b)"
  have c: "consistent ?cmp" using assms by (rule consistent_on_lifter)
  have 1: "sorted_wrt (\<lambda>a b. ?cmp a b \<le> 0) (sortedResults E data)"
    unfolding sortedResults_def by (rule sorted_sortBy [OF c])
  have 2: "mset (sortedResults E data) = mset (concat (map results data))"
    unfolding sortedResults_def by (rule mset_sortBy)
  have 3: "filter (\<lambda>y. ?cmp k y \<le> 0 \<and> ?cmp y k \<le> 0) (sortedResults E data) =
       filter (\<lambda>y. ?cmp k y \<le> 0 \<and> ?cmp y k \<le> 0) (concat (map results data))"
    unfolding sortedResults_def
    using filter_sortBy [OF c, of k "concat (map results data)"] by simp
  have 4: "fileContent E stamp data =
        tsContent stamp (join ('','' @ newline) (map (formatResult E) (sortedResults E data)))"
    by (simp add: fileContent_def formattedResults_def)
  have 5: "saveData E data s =
        perform (WriteFile outputFile (fileContent E (toISOString E (world s)) data))
          (writeFileSync E outputFile (fileContent E (toISOString E (world s)) data)) s"
    by (simp add: saveData_def)
  from 1 2 3 4 5 show ?thesis by (intro conjI)
qed

lemma smith_lifter: "lifter (extractRow smithRow) = ''Smith, J.''"
  by (simp add: extractRow_def smithRow_def at_index_def getText_def truthyText_def textCell_def
      trim_def isWhiteSpace_def)

lemma doe_lifter: "lifter (extractRow doeRow) = ''Doe, Jane''"
  by (simp add: extractRow_def doeRow_def at_index_def getText_def truthyText_def textCell_def
      trim_def isWhiteSpace_def)

lemma twoEvents_sorted:
  "sortedResults (simEnv onePage) twoEvents = [extractRow doeRow, extractRow smithRow]"
  by (simp add: sortedResults_def twoEvents_def sortBy_def simEnv_def smith_lifter doe_lifter)

theorem output_sorted_by_lifter_witness:
  "consistent (localeCompare (simEnv onePage))
   \<and> sortedResults (simEnv onePage) twoEvents = [extractRow doeRow, extractRow smithRow]
   \<and> concat (map results twoEvents) = [extractRow smithRow, extractRow doeRow]
   \<and> sorted_wrt (\<lambda>a b. localeCompare (simEnv onePage) (lifter a) (lifter b) \<le> 0)
        [extractRow doeRow, extractRow smithRow]
   \<and> mset [extractRow doeRow, extractRow smithRow] = mset [extractRow smithRow, extractRow doeRow]"
proof -
  have c: "consistent (localeCompare (simEnv onePage))"
    by (simp add: simEnv_def compareUnits_consistent)
  have f: "concat (map results twoEvents) = [extractRow smithRow, extractRow doeRow]"
    by (simp add: twoEvents_def)
  note T = output_sorted_by_lifter [OF c, of twoEvents "extractRow smithRow" "[]" "start []"]
  have 1: "sorted_wrt (\<lambda>a b. localeCompare (simEnv onePage) (lifter a) (lifter b) \<le> 0)
        [extractRow doeRow, extractRow smithRow]"
    using T [THEN conjunct1] by (simp only: twoEvents_sorted)
  have 2: "mset [extractRow doeRow, extractRow smithRow] = mset [extractRow smithRow, extractRow doeRow]"
    using T [THEN conjunct2, THEN conjunct1] by (simp only: twoEvents_sorted f)
  from c twoEvents_sorted f 1 2 show ?thesis by (intro conjI)
qed

end
